theory Spec2Isabelle
  imports Main "HOL-Library.Sublist" "HOL-Library.Multiset"
begin

section \<open>Data model\<close>

text \<open>
  Pieces are the objects \<^verbatim>\<open>{ type, color, hasMoved }\<close> of the source. The 8x8 array
  \<^verbatim>\<open>board[row][col]\<close> is a total map from coordinates to optional pieces
  (\<open>None\<close> is \<^verbatim>\<open>null\<close>); every access of the modelled code outside rows and
  columns 0..7 is guarded by \<^verbatim>\<open>isInBounds\<close> in the source, or is made explicit here.
\<close>

datatype piece_type = Pawn | Knight | Bishop | Rook | Queen | King

datatype color = White | Black

record piece =
  ptype :: piece_type
  pcolor :: color
  hasMoved :: bool

type_synonym square = "int \<times> int"

type_synonym board = "square \<Rightarrow> piece option"

text \<open>The \<^verbatim>\<open>moveData\<close> object stored in the history by \<^verbatim>\<open>ChessEngineCore.movePiece\<close>.\<close>

record moveData =
  mfrom :: square
  mto :: square
  mpiece :: piece
  captured :: "piece option"
  boardState :: board

record config =
  allowUndo :: bool
  maxMoveHistory :: int
  enableAnalytics :: bool

text \<open>The fields of a \<^verbatim>\<open>ChessEngineCore\<close> instance, but the wall-clock stamp
  \<^verbatim>\<open>gameStartTime\<close>.\<close>

record engine =
  board :: board
  turn :: color
  selectedSquare :: "square option"
  possibleMoves :: "square list"
  moveHistory :: "moveData list"
  capturedPieces :: "color \<Rightarrow> piece list"
  check :: bool
  gameOver :: bool
  lastMove :: "moveData option"
  promotingPawn :: "square option"
  gameTime :: int
  moveCount :: int
  checksGiven :: int
  castlesPerformed :: int
  enPassantCount :: int
  flipped :: bool
  config :: config

datatype exn = TypeError

datatype move_result = Valid | Promotion | Castle | Invalid

section \<open>ChessEngineCore: attack detection\<close>

fun opponent :: "color \<Rightarrow> color" where
  "opponent White = Black"
| "opponent Black = White"

definition isInBounds :: "int \<Rightarrow> int \<Rightarrow> bool" where
  "isInBounds r c \<longleftrightarrow> r \<ge> 0 \<and> r < 8 \<and> c \<ge> 0 \<and> c < 8"

text \<open>The squares in the order of the loops \<^verbatim>\<open>for row 0..7, for col 0..7\<close>.\<close>

definition indices :: "int list" where
  "indices = [0, 1, 2, 3, 4, 5, 6, 7]"

definition allSquares :: "square list" where
  "allSquares = concat (map (\<lambda>r. map (\<lambda>c. (r, c)) indices) indices)"

definition findKing :: "board \<Rightarrow> color \<Rightarrow> square option" where
  "findKing b col =
     find (\<lambda>sq. case b sq of None \<Rightarrow> False
                 | Some p \<Rightarrow> ptype p = King \<and> pcolor p = col) allSquares"

text \<open>A board none of whose 64 squares holds a king of the given colour.\<close>

definition kingAbsent :: "board \<Rightarrow> color \<Rightarrow> bool" where
  "kingAbsent b col \<longleftrightarrow>
     list_all (\<lambda>sq. case b sq of None \<Rightarrow> True
                    | Some p \<Rightarrow> \<not> (ptype p = King \<and> pcolor p = col)) allSquares"

text \<open>
  The loop of \<^verbatim>\<open>isPathClear\<close>. It walks from the square after the origin towards
  the target. The source calls it only for a target on a rank, file or diagonal of the
  origin, both on the board, where the target is reached after at most seven steps; the
  bounds and direction tests end the recursion for the other arguments, where the source
  would leave the board.
\<close>

function isPathClear_loop :: "board \<Rightarrow> int \<Rightarrow> int \<Rightarrow> int \<Rightarrow> int \<Rightarrow> int \<Rightarrow> int \<Rightarrow> bool" where
  "isPathClear_loop b r c toRow toCol dy dx =
     (if (r \<noteq> toRow \<or> c \<noteq> toCol) \<and> isInBounds r c \<and> (dy \<noteq> 0 \<or> dx \<noteq> 0) then
        (if b (r, c) \<noteq> None then False
         else isPathClear_loop b (r + dy) (c + dx) toRow toCol dy dx)
      else True)"
  by pat_completeness auto
termination
  by (relation "measure (\<lambda>(b, r, c, toRow, toCol, dy, dx).
        if dy > 0 then nat (8 - r) else if dy < 0 then nat (r + 1)
        else if dx > 0 then nat (8 - c) else nat (c + 1))")
     (auto simp: isInBounds_def)

definition isPathClear :: "board \<Rightarrow> int \<Rightarrow> int \<Rightarrow> int \<Rightarrow> int \<Rightarrow> bool" where
  "isPathClear b fromRow fromCol toRow toCol =
     (let dx = sgn (toCol - fromCol);
          dy = sgn (toRow - fromRow)
      in isPathClear_loop b (fromRow + dy) (fromCol + dx) toRow toCol dy dx)"

text \<open>
  \<^verbatim>\<open>canAttackSquare\<close> reads the attacking piece from the board; its only caller,
  \<^verbatim>\<open>isSquareAttacked\<close>, has checked that the square is occupied.
\<close>

definition canAttackSquare :: "board \<Rightarrow> int \<Rightarrow> int \<Rightarrow> int \<Rightarrow> int \<Rightarrow> bool" where
  "canAttackSquare b fromRow fromCol toRow toCol =
     (case b (fromRow, fromCol) of
        None \<Rightarrow> False
      | Some p \<Rightarrow>
          (let dx = toCol - fromCol; dy = toRow - fromRow in
           case ptype p of
             Pawn \<Rightarrow> (let dir = (if pcolor p = White then -1 else 1)
                      in dy = dir \<and> \<bar>dx\<bar> = 1)
           | Rook \<Rightarrow> (dx = 0 \<or> dy = 0) \<and> isPathClear b fromRow fromCol toRow toCol
           | Bishop \<Rightarrow> \<bar>dx\<bar> = \<bar>dy\<bar> \<and> isPathClear b fromRow fromCol toRow toCol
           | Queen \<Rightarrow> (dx = 0 \<or> dy = 0 \<or> \<bar>dx\<bar> = \<bar>dy\<bar>)
                      \<and> isPathClear b fromRow fromCol toRow toCol
           | Knight \<Rightarrow> (\<bar>dx\<bar> = 2 \<and> \<bar>dy\<bar> = 1) \<or> (\<bar>dx\<bar> = 1 \<and> \<bar>dy\<bar> = 2)
           | King \<Rightarrow> \<bar>dx\<bar> \<le> 1 \<and> \<bar>dy\<bar> \<le> 1 \<and> (dx \<noteq> 0 \<or> dy \<noteq> 0)))"

definition isSquareAttacked :: "board \<Rightarrow> int \<Rightarrow> int \<Rightarrow> color \<Rightarrow> bool" where
  "isSquareAttacked b row col defendingColor =
     (let attackingColor = opponent defendingColor in
      list_ex (\<lambda>(r, c). case b (r, c) of
                  None \<Rightarrow> False
                | Some p \<Rightarrow> pcolor p = attackingColor \<and> canAttackSquare b r c row col)
              allSquares)"

definition isKingInCheck :: "board \<Rightarrow> color \<Rightarrow> bool" where
  "isKingInCheck b col =
     (case findKing b col of
        None \<Rightarrow> False
      | Some (kr, kc) \<Rightarrow> isSquareAttacked b kr kc col)"

section \<open>ChessEngineCore: move generation\<close>

text \<open>
  The closure \<^verbatim>\<open>addDirectionalMoves(dr, dc)\<close>, started at \<^verbatim>\<open>(row + dr, col + dc)\<close>.
  The source only passes the eight non-zero directions; the direction test makes the
  recursion total.
\<close>

function addDirectionalMoves :: "board \<Rightarrow> color \<Rightarrow> int \<Rightarrow> int \<Rightarrow> int \<Rightarrow> int \<Rightarrow> square list" where
  "addDirectionalMoves b opponentColor r c dr dc =
     (if isInBounds r c \<and> (dr \<noteq> 0 \<or> dc \<noteq> 0) then
        (case b (r, c) of
           None \<Rightarrow> (r, c) # addDirectionalMoves b opponentColor (r + dr) (c + dc) dr dc
         | Some p \<Rightarrow> if pcolor p = opponentColor then [(r, c)] else [])
      else [])"
  by pat_completeness auto
termination
  by (relation "measure (\<lambda>(b, oc, r, c, dr, dc).
        if dr > 0 then nat (8 - r) else if dr < 0 then nat (r + 1)
        else if dc > 0 then nat (8 - c) else nat (c + 1))")
     (auto simp: isInBounds_def)

definition isOpponentAt :: "board \<Rightarrow> int \<Rightarrow> int \<Rightarrow> color \<Rightarrow> bool" where
  "isOpponentAt b r c opponentColor =
     (case b (r, c) of None \<Rightarrow> False | Some p \<Rightarrow> pcolor p = opponentColor)"

definition emptyOrOpponent :: "board \<Rightarrow> int \<Rightarrow> int \<Rightarrow> color \<Rightarrow> bool" where
  "emptyOrOpponent b r c opponentColor =
     (case b (r, c) of None \<Rightarrow> True | Some p \<Rightarrow> pcolor p = opponentColor)"

definition enPassantTarget :: "moveData option \<Rightarrow> color \<Rightarrow> int \<Rightarrow> int \<Rightarrow> bool" where
  "enPassantTarget lm opponentColor row c =
     (case lm of
        None \<Rightarrow> False
      | Some m \<Rightarrow> ptype (mpiece m) = Pawn \<and> pcolor (mpiece m) = opponentColor
                 \<and> \<bar>fst (mfrom m) - fst (mto m)\<bar> = 2
                 \<and> fst (mto m) = row \<and> snd (mto m) = c)"

definition calculatePawnMoves :: "board \<Rightarrow> moveData option \<Rightarrow> int \<Rightarrow> int \<Rightarrow> color \<Rightarrow> color \<Rightarrow> square list" where
  "calculatePawnMoves b lm row col col0 opponentColor =
     (let dir = (if col0 = White then -1 else 1);
          unmoved = (case b (row, col) of None \<Rightarrow> False | Some p \<Rightarrow> \<not> hasMoved p);
          forward =
            (if isInBounds (row + dir) col \<and> b (row + dir, col) = None then
               (row + dir, col) #
               (if unmoved \<and> isInBounds (row + 2 * dir) col \<and> b (row + 2 * dir, col) = None
                then [(row + 2 * dir, col)] else [])
             else []);
          diag = (\<lambda>dc. let r = row + dir; c = col + dc in
                    if isInBounds r c then
                      (if isOpponentAt b r c opponentColor then [(r, c)] else []) @
                      (if b (r, c) = None \<and> enPassantTarget lm opponentColor row c
                       then [(r, c)] else [])
                    else [])
      in forward @ diag (-1) @ diag 1)"

definition knightMoves :: "(int \<times> int) list" where
  "knightMoves = [(-2, -1), (-2, 1), (-1, -2), (-1, 2), (1, -2), (1, 2), (2, -1), (2, 1)]"

definition calculateKnightMoves :: "board \<Rightarrow> int \<Rightarrow> int \<Rightarrow> color \<Rightarrow> square list" where
  "calculateKnightMoves b row col opponentColor =
     concat (map (\<lambda>(dr, dc). let r = row + dr; c = col + dc in
                    if isInBounds r c \<and> emptyOrOpponent b r c opponentColor
                    then [(r, c)] else [])
                 knightMoves)"

definition calculateCastlingMoves :: "board \<Rightarrow> int \<Rightarrow> int \<Rightarrow> color \<Rightarrow> square list" where
  "calculateCastlingMoves b row col col0 =
     (let moved = (case b (row, col) of None \<Rightarrow> True | Some p \<Rightarrow> hasMoved p) in
      if moved \<or> isKingInCheck b col0 then []
      else
        let backRank = (if col0 = White then 7 else 0) in
        if row \<noteq> backRank then []
        else
          (case b (backRank, 7) of
             None \<Rightarrow> []
           | Some kingsideRook \<Rightarrow>
               if ptype kingsideRook = Rook \<and> \<not> hasMoved kingsideRook
                  \<and> b (backRank, 5) = None \<and> b (backRank, 6) = None
                  \<and> \<not> isSquareAttacked b backRank 5 col0
                  \<and> \<not> isSquareAttacked b backRank 6 col0
               then [(backRank, 6)] else [])
          @
          (case b (backRank, 0) of
             None \<Rightarrow> []
           | Some queensideRook \<Rightarrow>
               if ptype queensideRook = Rook \<and> \<not> hasMoved queensideRook
                  \<and> b (backRank, 1) = None \<and> b (backRank, 2) = None
                  \<and> b (backRank, 3) = None
                  \<and> \<not> isSquareAttacked b backRank 2 col0
                  \<and> \<not> isSquareAttacked b backRank 3 col0
               then [(backRank, 2)] else []))"

definition kingOffsets :: "(int \<times> int) list" where
  "kingOffsets = [(-1, -1), (-1, 0), (-1, 1), (0, -1), (0, 1), (1, -1), (1, 0), (1, 1)]"

definition calculateKingMoves :: "board \<Rightarrow> int \<Rightarrow> int \<Rightarrow> color \<Rightarrow> color \<Rightarrow> square list" where
  "calculateKingMoves b row col col0 opponentColor =
     concat (map (\<lambda>(dr, dc). let r = row + dr; c = col + dc in
                    if isInBounds r c \<and> emptyOrOpponent b r c opponentColor
                    then [(r, c)] else [])
                 kingOffsets)
     @ calculateCastlingMoves b row col col0"

definition queenDirections :: "(int \<times> int) list" where
  "queenDirections = [(-1, 0), (1, 0), (0, -1), (0, 1), (-1, -1), (-1, 1), (1, -1), (1, 1)]"

text \<open>The \<^verbatim>\<open>switch (piece.type)\<close> of \<^verbatim>\<open>calculatePossibleMoves\<close>: the pseudo-legal moves.\<close>

definition pseudoLegalMoves :: "board \<Rightarrow> moveData option \<Rightarrow> piece \<Rightarrow> int \<Rightarrow> int \<Rightarrow> square list" where
  "pseudoLegalMoves b lm p row col =
     (let col0 = pcolor p;
          opponentColor = opponent col0;
          slide = (\<lambda>(dr, dc). addDirectionalMoves b opponentColor (row + dr) (col + dc) dr dc)
      in case ptype p of
           Pawn \<Rightarrow> calculatePawnMoves b lm row col col0 opponentColor
         | Rook \<Rightarrow> slide (-1, 0) @ slide (1, 0) @ slide (0, -1) @ slide (0, 1)
         | Bishop \<Rightarrow> slide (-1, -1) @ slide (-1, 1) @ slide (1, -1) @ slide (1, 1)
         | Queen \<Rightarrow> concat (map slide queenDirections)
         | Knight \<Rightarrow> calculateKnightMoves b row col opponentColor
         | King \<Rightarrow> calculateKingMoves b row col col0 opponentColor)"

text \<open>
  \<^verbatim>\<open>wouldBeInCheck\<close> moves the piece on the live board, tests for check and puts the
  two squares back. The model returns the answer together with the board it leaves.
\<close>

definition wouldBeInCheck :: "board \<Rightarrow> int \<Rightarrow> int \<Rightarrow> int \<Rightarrow> int \<Rightarrow> color \<Rightarrow> bool \<times> board" where
  "wouldBeInCheck b fromRow fromCol toRow toCol col0 =
     (let originalPiece = b (toRow, toCol);
          b1 = b((toRow, toCol) := b (fromRow, fromCol));
          b2 = b1((fromRow, fromCol) := None);
          inCheck = isKingInCheck b2 col0;
          b3 = b2((fromRow, fromCol) := b2 (toRow, toCol));
          b4 = b3((toRow, toCol) := originalPiece)
      in (inCheck, b4))"

text \<open>\<^verbatim>\<open>moves.filter(([r, c]) => !this.wouldBeInCheck(row, col, r, c, color))\<close>.\<close>

fun filterMoves :: "board \<Rightarrow> int \<Rightarrow> int \<Rightarrow> color \<Rightarrow> square list \<Rightarrow> square list \<times> board" where
  "filterMoves b row col col0 [] = ([], b)"
| "filterMoves b row col col0 ((r, c) # ms) =
     (let (inCheck, b1) = wouldBeInCheck b row col r c col0;
          (rest, b2) = filterMoves b1 row col col0 ms
      in (if inCheck then rest else (r, c) # rest, b2))"

text \<open>
  \<^verbatim>\<open>calculatePossibleMoves\<close>. Its callers pass a row in 0..7: the loops of
  \<^verbatim>\<open>hasNoLegalMoves\<close> do, and \<^verbatim>\<open>movePiece\<close> reaches the call only after its own read
  of \<^verbatim>\<open>this.board[fromRow][fromCol]\<close>. For another row the first line of the source
  raises; that case is not part of this definition.
\<close>

definition calculatePossibleMoves :: "engine \<Rightarrow> int \<Rightarrow> int \<Rightarrow> square list \<times> engine" where
  "calculatePossibleMoves s row col =
     (case board s (row, col) of
        None \<Rightarrow> ([], s)
      | Some p \<Rightarrow>
          if pcolor p \<noteq> turn s then ([], s)
          else
            let moves = pseudoLegalMoves (board s) (lastMove s) p row col;
                (legal, b') = filterMoves (board s) row col (pcolor p) moves
            in (legal, s\<lparr>board := b'\<rparr>))"

section \<open>ChessEngineCore: terminal status\<close>

text \<open>
  \<^verbatim>\<open>hasNoLegalMoves\<close> scans the squares in loop order and returns \<^verbatim>\<open>false\<close> at the
  first piece of the side to move that has a move. The engine is threaded through, since
  every call of the generator works on the live board.
\<close>

fun hasNoLegalMoves_loop :: "engine \<Rightarrow> square list \<Rightarrow> bool \<times> engine" where
  "hasNoLegalMoves_loop s [] = (True, s)"
| "hasNoLegalMoves_loop s ((row, col) # rest) =
     (case board s (row, col) of
        None \<Rightarrow> hasNoLegalMoves_loop s rest
      | Some p \<Rightarrow>
          if pcolor p = turn s then
            (let (ms, s1) = calculatePossibleMoves s row col in
             if length ms > 0 then (False, s1) else hasNoLegalMoves_loop s1 rest)
          else hasNoLegalMoves_loop s rest)"

definition hasNoLegalMoves :: "engine \<Rightarrow> bool \<times> engine" where
  "hasNoLegalMoves s = hasNoLegalMoves_loop s allSquares"

definition isCheckmate :: "engine \<Rightarrow> bool \<times> engine" where
  "isCheckmate s = (if \<not> check s then (False, s) else hasNoLegalMoves s)"

definition isStalemate :: "engine \<Rightarrow> bool \<times> engine" where
  "isStalemate s = (if check s then (False, s) else hasNoLegalMoves s)"

section \<open>ChessEngineCore: applying and undoing moves\<close>

definition executeCastling :: "engine \<Rightarrow> int \<Rightarrow> int \<Rightarrow> int \<Rightarrow> int \<Rightarrow> engine" where
  "executeCastling s fromRow fromCol toRow toCol =
     (let isKingside = toCol > fromCol;
          rookFromCol = (if isKingside then 7 else 0);
          rookToCol = (if isKingside then 5 else 3);
          b = board s;
          b1 = b((toRow, toCol) := b (fromRow, fromCol));
          b2 = b1((fromRow, fromCol) := None);
          b3 = b2((toRow, rookToCol) := b2 (fromRow, rookFromCol));
          b4 = b3((fromRow, rookFromCol) := None)
      in s\<lparr>board := b4, castlesPerformed := castlesPerformed s + 1\<rparr>)"

text \<open>
  \<^verbatim>\<open>executeEnPassant\<close> reads \<^verbatim>\<open>capturedPawn.color\<close> after it has moved the pawn:
  on an empty square beside the origin this is a \<^verbatim>\<open>TypeError\<close>.
\<close>

definition executeEnPassant :: "engine \<Rightarrow> int \<Rightarrow> int \<Rightarrow> int \<Rightarrow> int \<Rightarrow> exn + engine" where
  "executeEnPassant s fromRow fromCol toRow toCol =
     (let b = board s;
          b1 = b((toRow, toCol) := b (fromRow, fromCol));
          b2 = b1((fromRow, fromCol) := None)
      in case b2 (fromRow, toCol) of
           None \<Rightarrow> Inl TypeError
         | Some capturedPawn \<Rightarrow>
             Inr (s\<lparr>board := b2((fromRow, toCol) := None),
                    capturedPieces := (capturedPieces s)
                      (pcolor capturedPawn := capturedPieces s (pcolor capturedPawn) @ [capturedPawn]),
                    enPassantCount := enPassantCount s + 1\<rparr>))"

definition regularMove :: "engine \<Rightarrow> piece \<Rightarrow> int \<Rightarrow> int \<Rightarrow> int \<Rightarrow> int \<Rightarrow> engine" where
  "regularMove s p fromRow fromCol toRow toCol =
     (let caps = (case board s (toRow, toCol) of
                    None \<Rightarrow> capturedPieces s
                  | Some t \<Rightarrow> (capturedPieces s)(pcolor t := capturedPieces s (pcolor t) @ [t]));
          b1 = (board s)((toRow, toCol) := Some p);
          b2 = b1((fromRow, fromCol) := None)
      in s\<lparr>board := b2, capturedPieces := caps\<rparr>)"

text \<open>The three branches of "Handle special moves" in \<^verbatim>\<open>movePiece\<close>.\<close>

definition handleSpecialMoves :: "engine \<Rightarrow> piece \<Rightarrow> int \<Rightarrow> int \<Rightarrow> int \<Rightarrow> int \<Rightarrow> exn + (move_result \<times> engine)" where
  "handleSpecialMoves s p fromRow fromCol toRow toCol =
     (if ptype p = King \<and> \<bar>toCol - fromCol\<bar> = 2 then
        Inr (Castle, executeCastling s fromRow fromCol toRow toCol)
      else if ptype p = Pawn \<and> board s (toRow, toCol) = None \<and> fromCol \<noteq> toCol then
        (case executeEnPassant s fromRow fromCol toRow toCol of
           Inl e \<Rightarrow> Inl e
         | Inr s' \<Rightarrow> Inr (Valid, s'))
      else Inr (Valid, regularMove s p fromRow fromCol toRow toCol))"

text \<open>
  "Update game state" to the end of \<^verbatim>\<open>movePiece\<close>: last move, history with its bound,
  move count, turn, check flag and the game-over test
  \<^verbatim>\<open>this.isCheckmate() || this.isStalemate()\<close>.
\<close>

definition updateGameState :: "engine \<Rightarrow> moveData \<Rightarrow> engine" where
  "updateGameState s md =
     (let hist = moveHistory s @ [md];
          hist' = (if maxMoveHistory (config s) \<noteq> 0
                      \<and> int (length hist) > maxMoveHistory (config s)
                   then tl hist else hist);
          turn' = opponent (turn s);
          chk = isKingInCheck (board s) turn';
          s1 = s\<lparr>lastMove := Some md, moveHistory := hist',
                 moveCount := moveCount s + 1, turn := turn', check := chk,
                 checksGiven := (if chk then checksGiven s + 1 else checksGiven s)\<rparr>;
          (cm, s2) = isCheckmate s1
      in if cm then s2\<lparr>gameOver := True\<rparr>
         else (let (sm, s3) = isStalemate s2 in s3\<lparr>gameOver := sm\<rparr>))"

text \<open>
  \<^verbatim>\<open>movePiece\<close>. \<^verbatim>\<open>this.board[fromRow]\<close> is \<^verbatim>\<open>undefined\<close> for a row outside 0..7, so
  the first line raises there; a column outside 0..7 reads \<^verbatim>\<open>undefined\<close>, which is
  falsy.
\<close>

definition movePiece :: "engine \<Rightarrow> int \<Rightarrow> int \<Rightarrow> int \<Rightarrow> int \<Rightarrow> exn + (move_result \<times> engine)" where
  "movePiece s fromRow fromCol toRow toCol =
     (if fromRow < 0 \<or> fromRow > 7 then Inl TypeError
      else if fromCol < 0 \<or> fromCol > 7 then Inr (Invalid, s)
      else case board s (fromRow, fromCol) of
        None \<Rightarrow> Inr (Invalid, s)
      | Some p \<Rightarrow>
          if pcolor p \<noteq> turn s then Inr (Invalid, s)
          else
            let (legal, s1) = calculatePossibleMoves s fromRow fromCol in
            if find (\<lambda>(r, c). r = toRow \<and> c = toCol) legal = None then Inr (Invalid, s1)
            else
              let md = \<lparr>mfrom = (fromRow, fromCol), mto = (toRow, toCol), mpiece = p,
                        captured = board s1 (toRow, toCol), boardState = board s1\<rparr>
              in case handleSpecialMoves s1 p fromRow fromCol toRow toCol of
                   Inl e \<Rightarrow> Inl e
                 | Inr (result, s2) \<Rightarrow>
                     (case board s2 (toRow, toCol) of
                        None \<Rightarrow> Inl TypeError
                      | Some q \<Rightarrow>
                          let s3 = s2\<lparr>board := (board s2)
                                      ((toRow, toCol) := Some (q\<lparr>hasMoved := True\<rparr>))\<rparr>;
                              promo = (ptype p = Pawn \<and> (toRow = 0 \<or> toRow = 7));
                              s4 = (if promo then s3\<lparr>promotingPawn := Some (toRow, toCol)\<rparr>
                                    else s3);
                              result' = (if promo then Promotion else result)
                          in Inr (result', updateGameState s4 md)))"

text \<open>\<^verbatim>\<open>findIndex\<close> followed by \<^verbatim>\<open>splice(index, 1)\<close>: drop the first match, if any.\<close>

fun removeFirst :: "('a \<Rightarrow> bool) \<Rightarrow> 'a list \<Rightarrow> 'a list" where
  "removeFirst P [] = []"
| "removeFirst P (x # xs) = (if P x then xs else x # removeFirst P xs)"

definition undoMove :: "engine \<Rightarrow> bool \<times> engine" where
  "undoMove s =
     (if \<not> allowUndo (config s) \<or> moveHistory s = [] then (False, s)
      else
        let lastMv = last (moveHistory s);
            hist = butlast (moveHistory s);
            caps = (case captured lastMv of
                      None \<Rightarrow> capturedPieces s
                    | Some cp \<Rightarrow> (capturedPieces s)
                        (pcolor cp := removeFirst (\<lambda>p. ptype p = ptype cp \<and> pcolor p = pcolor cp)
                                        (capturedPieces s (pcolor cp))));
            turn' = opponent (turn s)
        in (True, s\<lparr>board := boardState lastMv, moveHistory := hist, capturedPieces := caps,
                     turn := turn', check := isKingInCheck (boardState lastMv) turn',
                     gameOver := False, moveCount := moveCount s - 1,
                     lastMove := (if hist = [] then None else Some (last hist))\<rparr>))"

text \<open>
  \<^verbatim>\<open>completePromotion\<close>. With a pending square that is empty,
  \<^verbatim>\<open>this.board[row][col].color\<close> raises.
\<close>

definition completePromotion :: "engine \<Rightarrow> piece_type \<Rightarrow> exn + engine" where
  "completePromotion s pieceType =
     (case promotingPawn s of
        None \<Rightarrow> Inr s
      | Some (row, col) \<Rightarrow>
          (case board s (row, col) of
             None \<Rightarrow> Inl TypeError
           | Some p \<Rightarrow>
               Inr (s\<lparr>board := (board s)((row, col) :=
                         Some \<lparr>ptype = pieceType, pcolor = pcolor p, hasMoved = True\<rparr>),
                      promotingPawn := None\<rparr>)))"

section \<open>ChessEngineSystem: temporary moves of the search\<close>

text \<open>The \<^verbatim>\<open>originalState\<close> object that \<^verbatim>\<open>makeMove\<close> returns for \<^verbatim>\<open>undoMove\<close>.\<close>

record originalState =
  opiece :: piece
  ocaptured :: "piece option"
  oturn :: color
  olastMove :: "moveData option"
  ocheck :: bool

text \<open>
  \<^verbatim>\<open>ChessEngineSystem.makeMove(engine, move)\<close>; \<open>None\<close> is \<^verbatim>\<open>{ success: false }\<close>.
  The moved object is marked \<^verbatim>\<open>hasMoved\<close> after it has been stored on the target.
\<close>

definition sys_makeMove :: "engine \<Rightarrow> square \<times> square \<Rightarrow> (engine \<times> originalState) option" where
  "sys_makeMove e mv =
     (let from = fst mv; to = snd mv in
      case board e from of
        None \<Rightarrow> None
      | Some p \<Rightarrow>
          let orig = \<lparr>opiece = p, ocaptured = board e to, oturn = turn e,
                      olastMove = lastMove e, ocheck = check e\<rparr>;
              b1 = (board e)(to := Some (p\<lparr>hasMoved := True\<rparr>));
              b2 = b1(from := None);
              turn' = opponent (turn e)
          in Some (e\<lparr>board := b2, turn := turn', check := isKingInCheck b2 turn'\<rparr>, orig))"

definition sys_undoMove :: "engine \<Rightarrow> originalState \<Rightarrow> square \<times> square \<Rightarrow> exn + engine" where
  "sys_undoMove e orig mv =
     (let from = fst mv; to = snd mv;
          b1 = (board e)(from := Some (opiece orig));
          b2 = b1(to := ocaptured orig)
      in case b2 from of
           None \<Rightarrow> Inl TypeError
         | Some q \<Rightarrow>
             Inr (e\<lparr>board := b2(from := Some (q\<lparr>hasMoved := hasMoved (opiece orig)\<rparr>)),
                    turn := oturn orig, lastMove := olastMove orig, check := ocheck orig\<rparr>))"

section \<open>StockfishLikeEngine: the hint worker\<close>

text \<open>
  The worker receives the board as an 8x8 array and mutates it in place while it searches.
  A move is the object \<^verbatim>\<open>{ from: {r, c}, to: {r, c}, piece: {...piece} }\<close>. Scores are
  JavaScript numbers: integers, and the two infinities that bound the root window.
\<close>

record sfmove =
  sfrom :: square
  sto :: square
  spiece :: piece

datatype num = NegInf | Num int | PosInf

fun num_neg :: "num \<Rightarrow> num" where
  "num_neg NegInf = PosInf"
| "num_neg (Num i) = Num (- i)"
| "num_neg PosInf = NegInf"

fun num_le :: "num \<Rightarrow> num \<Rightarrow> bool" where
  "num_le NegInf y = True"
| "num_le (Num i) NegInf = False"
| "num_le (Num i) (Num j) = (i \<le> j)"
| "num_le (Num i) PosInf = True"
| "num_le PosInf PosInf = True"
| "num_le PosInf y = False"

definition num_lt :: "num \<Rightarrow> num \<Rightarrow> bool" where
  "num_lt x y \<longleftrightarrow> \<not> num_le y x"

definition num_max :: "num \<Rightarrow> num \<Rightarrow> num" where
  "num_max x y = (if num_le x y then y else x)"

fun pieceValues :: "piece_type \<Rightarrow> int" where
  "pieceValues Pawn = 100"
| "pieceValues Knight = 320"
| "pieceValues Bishop = 330"
| "pieceValues Rook = 500"
| "pieceValues Queen = 900"
| "pieceValues King = 20000"

definition pawnTable :: "int list list" where
  "pawnTable =
    [[  0,  0,  0,  0,  0,  0,  0,  0],
     [ 50, 50, 50, 50, 50, 50, 50, 50],
     [ 10, 10, 20, 30, 30, 20, 10, 10],
     [  5,  5, 10, 25, 25, 10,  5,  5],
     [  0,  0,  0, 20, 20,  0,  0,  0],
     [  5, -5,-10,  0,  0,-10, -5,  5],
     [  5, 10, 10,-20,-20, 10, 10,  5],
     [  0,  0,  0,  0,  0,  0,  0,  0]]"

definition knightTable :: "int list list" where
  "knightTable =
    [[-50,-40,-30,-30,-30,-30,-40,-50],
     [-40,-20,  0,  0,  0,  0,-20,-40],
     [-30,  0, 10, 15, 15, 10,  0,-30],
     [-30,  5, 15, 20, 20, 15,  5,-30],
     [-30,  0, 15, 20, 20, 15,  0,-30],
     [-30,  5, 10, 15, 15, 10,  5,-30],
     [-40,-20,  0,  5,  5,  0,-20,-40],
     [-50,-40,-30,-30,-30,-30,-40,-50]]"

definition bishopTable :: "int list list" where
  "bishopTable =
    [[-20,-10,-10,-10,-10,-10,-10,-20],
     [-10,  0,  0,  0,  0,  0,  0,-10],
     [-10,  0,  5, 10, 10,  5,  0,-10],
     [-10,  5,  5, 10, 10,  5,  5,-10],
     [-10,  0, 10, 10, 10, 10,  0,-10],
     [-10, 10, 10, 10, 10, 10, 10,-10],
     [-10,  5,  0,  0,  0,  0,  5,-10],
     [-20,-10,-10,-10,-10,-10,-10,-20]]"

definition rookTable :: "int list list" where
  "rookTable =
    [[  0,  0,  0,  0,  0,  0,  0,  0],
     [  5, 10, 10, 10, 10, 10, 10,  5],
     [ -5,  0,  0,  0,  0,  0,  0, -5],
     [ -5,  0,  0,  0,  0,  0,  0, -5],
     [ -5,  0,  0,  0,  0,  0,  0, -5],
     [ -5,  0,  0,  0,  0,  0,  0, -5],
     [ -5,  0,  0,  0,  0,  0,  0, -5],
     [  0,  0,  0,  5,  5,  0,  0,  0]]"

definition queenTable :: "int list list" where
  "queenTable =
    [[-20,-10,-10, -5, -5,-10,-10,-20],
     [-10,  0,  0,  0,  0,  0,  0,-10],
     [-10,  0,  5,  5,  5,  5,  0,-10],
     [ -5,  0,  5,  5,  5,  5,  0, -5],
     [  0,  0,  5,  5,  5,  5,  0, -5],
     [-10,  5,  5,  5,  5,  5,  0,-10],
     [-10,  0,  5,  0,  0,  0,  0,-10],
     [-20,-10,-10, -5, -5,-10,-10,-20]]"

definition kingMiddlegameTable :: "int list list" where
  "kingMiddlegameTable =
    [[-30,-40,-40,-50,-50,-40,-40,-30],
     [-30,-40,-40,-50,-50,-40,-40,-30],
     [-30,-40,-40,-50,-50,-40,-40,-30],
     [-30,-40,-40,-50,-50,-40,-40,-30],
     [-20,-30,-30,-40,-40,-30,-30,-20],
     [-10,-20,-20,-20,-20,-20,-20,-10],
     [ 20, 20,  0,  0,  0,  0, 20, 20],
     [ 20, 30, 10,  0,  0, 10, 30, 20]]"

definition kingEndgameTable :: "int list list" where
  "kingEndgameTable =
    [[-50,-40,-30,-20,-20,-30,-40,-50],
     [-30,-20,-10,  0,  0,-10,-20,-30],
     [-30,-10, 20, 30, 30, 20,-10,-30],
     [-30,-10, 30, 40, 40, 30,-10,-30],
     [-30,-10, 30, 40, 40, 30,-10,-30],
     [-30,-10, 20, 30, 30, 20,-10,-30],
     [-30,-30,  0,  0,  0,  0,-30,-30],
     [-50,-30,-30,-30,-30,-30,-30,-50]]"

definition getOpponent :: "color \<Rightarrow> color" where
  "getOpponent col = (if col = White then Black else White)"

definition isValidSquare :: "int \<Rightarrow> int \<Rightarrow> bool" where
  "isValidSquare row col \<longleftrightarrow> row \<ge> 0 \<and> row < 8 \<and> col \<ge> 0 \<and> col < 8"

definition isSquareEmpty :: "board \<Rightarrow> int \<Rightarrow> int \<Rightarrow> bool" where
  "isSquareEmpty b row col \<longleftrightarrow> isValidSquare row col \<and> b (row, col) = None"

definition isOpponentPiece :: "board \<Rightarrow> int \<Rightarrow> int \<Rightarrow> color \<Rightarrow> bool" where
  "isOpponentPiece b row col opponentColor \<longleftrightarrow>
     isValidSquare row col \<and>
     (case b (row, col) of None \<Rightarrow> False | Some p \<Rightarrow> pcolor p = opponentColor)"

text \<open>
  One direction of \<^verbatim>\<open>addSlidingMoves\<close> and of \<^verbatim>\<open>addSlidingAttacks\<close>, from the first
  square after the piece. Both are called with the eight non-zero directions only.
\<close>

function slidingMoves :: "board \<Rightarrow> color \<Rightarrow> int \<Rightarrow> int \<Rightarrow> int \<Rightarrow> int \<Rightarrow> square list" where
  "slidingMoves b opponentColor newRow newCol dr dc =
     (if isValidSquare newRow newCol \<and> (dr \<noteq> 0 \<or> dc \<noteq> 0) then
        (if isSquareEmpty b newRow newCol then
           (newRow, newCol) # slidingMoves b opponentColor (newRow + dr) (newCol + dc) dr dc
         else if isOpponentPiece b newRow newCol opponentColor then [(newRow, newCol)]
         else [])
      else [])"
  by pat_completeness auto
termination
  by (relation "measure (\<lambda>(b, oc, r, c, dr, dc).
        if dr > 0 then nat (8 - r) else if dr < 0 then nat (r + 1)
        else if dc > 0 then nat (8 - c) else nat (c + 1))")
     (auto simp: isValidSquare_def)

definition addSlidingMoves :: "board \<Rightarrow> int \<Rightarrow> int \<Rightarrow> (int \<times> int) list \<Rightarrow> color \<Rightarrow> square list" where
  "addSlidingMoves b row col directions opponentColor =
     concat (map (\<lambda>(dr, dc). slidingMoves b opponentColor (row + dr) (col + dc) dr dc) directions)"

function slidingAttacks :: "board \<Rightarrow> int \<Rightarrow> int \<Rightarrow> int \<Rightarrow> int \<Rightarrow> square list" where
  "slidingAttacks b newRow newCol dr dc =
     (if isValidSquare newRow newCol \<and> (dr \<noteq> 0 \<or> dc \<noteq> 0) then
        (newRow, newCol) #
        (if b (newRow, newCol) \<noteq> None then []
         else slidingAttacks b (newRow + dr) (newCol + dc) dr dc)
      else [])"
  by pat_completeness auto
termination
  by (relation "measure (\<lambda>(b, r, c, dr, dc).
        if dr > 0 then nat (8 - r) else if dr < 0 then nat (r + 1)
        else if dc > 0 then nat (8 - c) else nat (c + 1))")
     (auto simp: isValidSquare_def)

definition addSlidingAttacks :: "board \<Rightarrow> int \<Rightarrow> int \<Rightarrow> (int \<times> int) list \<Rightarrow> square list" where
  "addSlidingAttacks b row col directions =
     concat (map (\<lambda>(dr, dc). slidingAttacks b (row + dr) (col + dc) dr dc) directions)"

definition rookDirs :: "(int \<times> int) list" where
  "rookDirs = [(-1, 0), (1, 0), (0, -1), (0, 1)]"

definition bishopDirs :: "(int \<times> int) list" where
  "bishopDirs = [(-1, -1), (-1, 1), (1, -1), (1, 1)]"

definition allDirs :: "(int \<times> int) list" where
  "allDirs = [(-1, -1), (-1, 0), (-1, 1), (0, -1), (0, 1), (1, -1), (1, 0), (1, 1)]"

definition stepMoves :: "board \<Rightarrow> int \<Rightarrow> int \<Rightarrow> (int \<times> int) list \<Rightarrow> color \<Rightarrow> square list" where
  "stepMoves b row col offsets opponentColor =
     concat (map (\<lambda>(dr, dc). let newRow = row + dr; newCol = col + dc in
                    if isValidSquare newRow newCol
                       \<and> (isSquareEmpty b newRow newCol
                           \<or> isOpponentPiece b newRow newCol opponentColor)
                    then [(newRow, newCol)] else [])
                 offsets)"

text \<open>\<^verbatim>\<open>StockfishLikeEngine.calculatePossibleMoves\<close>: pseudo-legal moves, no castling, no en passant.\<close>

definition calculatePossibleMoves_sf :: "board \<Rightarrow> int \<Rightarrow> int \<Rightarrow> square list" where
  "calculatePossibleMoves_sf b row col =
     (case b (row, col) of
        None \<Rightarrow> []
      | Some p \<Rightarrow>
          (let col0 = pcolor p;
               opponentColor = (if col0 = White then Black else White)
           in case ptype p of
                Pawn \<Rightarrow>
                  (let direction = (if col0 = White then -1 else 1);
                       startRow = (if col0 = White then 6 else 1)
                   in (if isSquareEmpty b (row + direction) col then
                         (row + direction, col) #
                         (if row = startRow \<and> isSquareEmpty b (row + 2 * direction) col
                          then [(row + 2 * direction, col)] else [])
                       else [])
                      @ (if isOpponentPiece b (row + direction) (col - 1) opponentColor
                         then [(row + direction, col - 1)] else [])
                      @ (if isOpponentPiece b (row + direction) (col + 1) opponentColor
                         then [(row + direction, col + 1)] else []))
              | Rook \<Rightarrow> addSlidingMoves b row col rookDirs opponentColor
              | Knight \<Rightarrow> stepMoves b row col knightMoves opponentColor
              | Bishop \<Rightarrow> addSlidingMoves b row col bishopDirs opponentColor
              | Queen \<Rightarrow> addSlidingMoves b row col allDirs opponentColor
              | King \<Rightarrow> stepMoves b row col allDirs opponentColor))"

definition stepAttacks :: "int \<Rightarrow> int \<Rightarrow> (int \<times> int) list \<Rightarrow> square list" where
  "stepAttacks row col offsets =
     concat (map (\<lambda>(dr, dc). let newRow = row + dr; newCol = col + dc in
                    if isValidSquare newRow newCol then [(newRow, newCol)] else [])
                 offsets)"

definition getAttackSquares :: "board \<Rightarrow> int \<Rightarrow> int \<Rightarrow> square list" where
  "getAttackSquares b row col =
     (case b (row, col) of
        None \<Rightarrow> []
      | Some p \<Rightarrow>
          (case ptype p of
             Pawn \<Rightarrow>
               (let direction = (if pcolor p = White then -1 else 1)
                in (if isValidSquare (row + direction) (col - 1)
                    then [(row + direction, col - 1)] else [])
                   @ (if isValidSquare (row + direction) (col + 1)
                      then [(row + direction, col + 1)] else []))
           | Rook \<Rightarrow> addSlidingAttacks b row col rookDirs
           | Knight \<Rightarrow> stepAttacks row col knightMoves
           | Bishop \<Rightarrow> addSlidingAttacks b row col bishopDirs
           | Queen \<Rightarrow> addSlidingAttacks b row col allDirs
           | King \<Rightarrow> stepAttacks row col allDirs))"

definition squareAttackedBy :: "board \<Rightarrow> int \<Rightarrow> int \<Rightarrow> color \<Rightarrow> bool" where
  "squareAttackedBy b row col attackerColor =
     list_ex (\<lambda>(r, c). case b (r, c) of
                 None \<Rightarrow> False
               | Some p \<Rightarrow> pcolor p = attackerColor
                           \<and> list_ex (\<lambda>(ar, ac). ar = row \<and> ac = col) (getAttackSquares b r c))
             allSquares"

text \<open>
  \<^verbatim>\<open>StockfishLikeEngine.isKingInCheck\<close>: the first king of the colour in loop order;
  \<^verbatim>\<open>if (!kingPos) return false; // No king found\<close>.
\<close>

definition isKingInCheck_sf :: "board \<Rightarrow> color \<Rightarrow> bool" where
  "isKingInCheck_sf b col =
     (case find (\<lambda>sq. case b sq of None \<Rightarrow> False
                      | Some p \<Rightarrow> ptype p = King \<and> pcolor p = col) allSquares of
        None \<Rightarrow> False
      | Some (kr, kc) \<Rightarrow> squareAttackedBy b kr kc (getOpponent col))"

text \<open>\<^verbatim>\<open>isMoveLegal\<close> tries the move on the live board and puts the two squares back.\<close>

definition isMoveLegal :: "board \<Rightarrow> sfmove \<Rightarrow> color \<Rightarrow> bool \<times> board" where
  "isMoveLegal b m col0 =
     (let capt = b (sto m);
          b1 = b(sto m := b (sfrom m));
          b2 = b1(sfrom m := None);
          isLegal = \<not> isKingInCheck_sf b2 col0;
          b3 = b2(sfrom m := b2 (sto m));
          b4 = b3(sto m := capt)
      in (isLegal, b4))"

fun legalOf :: "board \<Rightarrow> color \<Rightarrow> piece \<Rightarrow> square \<Rightarrow> square list \<Rightarrow> sfmove list \<times> board" where
  "legalOf b col0 p sq [] = ([], b)"
| "legalOf b col0 p sq (t # ts) =
     (let m = \<lparr>sfrom = sq, sto = t, spiece = p\<rparr>;
          (ok, b1) = isMoveLegal b m col0;
          (rest, b2) = legalOf b1 col0 p sq ts
      in (if ok then m # rest else rest, b2))"

fun generateAllLegalMoves_loop :: "board \<Rightarrow> color \<Rightarrow> square list \<Rightarrow> sfmove list \<times> board" where
  "generateAllLegalMoves_loop b col0 [] = ([], b)"
| "generateAllLegalMoves_loop b col0 ((r, c) # sqs) =
     (case b (r, c) of
        None \<Rightarrow> generateAllLegalMoves_loop b col0 sqs
      | Some p \<Rightarrow>
          if pcolor p = col0 then
            (let (ms, b1) = legalOf b col0 p (r, c) (calculatePossibleMoves_sf b r c);
                 (rest, b2) = generateAllLegalMoves_loop b1 col0 sqs
             in (ms @ rest, b2))
          else generateAllLegalMoves_loop b col0 sqs)"

definition generateAllLegalMoves :: "board \<Rightarrow> color \<Rightarrow> sfmove list \<times> board" where
  "generateAllLegalMoves b col0 = generateAllLegalMoves_loop b col0 allSquares"

definition generateCaptures :: "board \<Rightarrow> color \<Rightarrow> sfmove list \<times> board" where
  "generateCaptures b col0 =
     (let (moves, b1) = generateAllLegalMoves b col0
      in (filter (\<lambda>m. b1 (sto m) \<noteq> None) moves, b1))"

text \<open>
  \<^verbatim>\<open>orderMoves\<close> sorts with the comparator \<^verbatim>\<open>scoreB - scoreA\<close>, where a move scores
  \<^verbatim>\<open>pieceValues[victim] - pieceValues[attacker]\<close> when its target is occupied and 0
  otherwise. \<^verbatim>\<open>Array.prototype.sort\<close> is stable, so the result is the stable sort by
  descending score.
\<close>

definition moveScore :: "board \<Rightarrow> sfmove \<Rightarrow> int" where
  "moveScore b m =
     (case b (sto m) of
        None \<Rightarrow> 0
      | Some capture \<Rightarrow> pieceValues (ptype capture) - pieceValues (ptype (spiece m)))"

definition orderMoves :: "board \<Rightarrow> sfmove list \<Rightarrow> sfmove list" where
  "orderMoves b moves = sort_key (\<lambda>m. - moveScore b m) moves"

definition makeMove :: "board \<Rightarrow> sfmove \<Rightarrow> piece option \<times> board" where
  "makeMove b m =
     (let capt = b (sto m);
          b1 = b(sto m := b (sfrom m));
          b2 = b1(sfrom m := None)
      in (capt, b2))"

definition unmakeMove :: "board \<Rightarrow> sfmove \<Rightarrow> piece option \<Rightarrow> board" where
  "unmakeMove b m capt =
     (let b1 = b(sfrom m := b (sto m))
      in b1(sto m := capt))"

section \<open>StockfishLikeEngine: evaluation and search\<close>

definition getPositionalValue :: "piece \<Rightarrow> int \<Rightarrow> int \<Rightarrow> bool \<Rightarrow> int" where
  "getPositionalValue p r c isEndgame =
     (let table = (case ptype p of
                     Pawn \<Rightarrow> pawnTable
                   | Knight \<Rightarrow> knightTable
                   | Bishop \<Rightarrow> bishopTable
                   | Rook \<Rightarrow> rookTable
                   | Queen \<Rightarrow> queenTable
                   | King \<Rightarrow> if isEndgame then kingEndgameTable else kingMiddlegameTable);
          row = (if pcolor p = White then r else 7 - r)
      in table ! nat row ! nat c)"

definition evaluateKingSafety_sf :: "board \<Rightarrow> square \<Rightarrow> color \<Rightarrow> int" where
  "evaluateKingSafety_sf b kingPos col0 =
     (let opp = getOpponent col0 in
      sum_list (map (\<lambda>(dr, dc). let r = fst kingPos + dr; c = snd kingPos + dc in
                       if r \<ge> 0 \<and> r < 8 \<and> c \<ge> 0 \<and> c < 8 \<and> squareAttackedBy b r c opp
                       then -20 else 0)
                    (concat (map (\<lambda>dr. map (\<lambda>dc. (dr, dc)) [-1, 0, 1]) [-1, 0, 1]))))"

definition evaluatePawnStructure_sf :: "board \<Rightarrow> color \<Rightarrow> int" where
  "evaluatePawnStructure_sf b col0 =
     (let pawns = filter (\<lambda>sq. case b sq of
                            None \<Rightarrow> False
                          | Some p \<Rightarrow> ptype p = Pawn \<and> pcolor p = col0) allSquares
      in sum_list (map (\<lambda>pawn.
            (let doubled = int (length (filter (\<lambda>p. snd p = snd pawn \<and> fst p \<noteq> fst pawn) pawns));
                 hasSupport = list_ex (\<lambda>p. \<bar>snd p - snd pawn\<bar> = 1) pawns
             in - (doubled * 10) - (if hasSupport then 0 else 20)))
          pawns))"

text \<open>
  The first loop of \<^verbatim>\<open>evaluate\<close>: the running score, the material seen so far (which
  selects the king table for the pieces that follow), and the last king of each colour.
\<close>

record evalAcc =
  accScore :: int
  totalMaterial :: int
  whiteKingPos :: "square option"
  blackKingPos :: "square option"

definition evaluateSquare :: "board \<Rightarrow> color \<Rightarrow> evalAcc \<Rightarrow> square \<Rightarrow> evalAcc" where
  "evaluateSquare b col0 acc sq =
     (case b sq of
        None \<Rightarrow> acc
      | Some p \<Rightarrow>
          (let pieceValue = pieceValues (ptype p);
               posValue = getPositionalValue p (fst sq) (snd sq) (totalMaterial acc > 2000);
               acc1 = acc\<lparr>totalMaterial := totalMaterial acc + pieceValue\<rparr>;
               acc2 = (if ptype p = King then
                         (if pcolor p = White then acc1\<lparr>whiteKingPos := Some sq\<rparr>
                          else acc1\<lparr>blackKingPos := Some sq\<rparr>)
                       else acc1)
           in if pcolor p = col0
              then acc2\<lparr>accScore := accScore acc2 + (pieceValue + posValue)\<rparr>
              else acc2\<lparr>accScore := accScore acc2 - (pieceValue + posValue)\<rparr>))"

definition evaluate :: "board \<Rightarrow> color \<Rightarrow> int \<times> board" where
  "evaluate b col0 =
     (let acc = foldl (evaluateSquare b col0)
                  \<lparr>accScore = 0, totalMaterial = 0, whiteKingPos = None, blackKingPos = None\<rparr>
                  allSquares;
          (mine, b1) = generateAllLegalMoves b col0;
          (theirs, b2) = generateAllLegalMoves b1 (getOpponent col0);
          score1 = accScore acc + (int (length mine) - int (length theirs)) * 10;
          score2 = (case (whiteKingPos acc, blackKingPos acc) of
                      (Some wk, Some bk) \<Rightarrow>
                        (let myKingPos = (if col0 = White then wk else bk);
                             oppKingPos = (if col0 = White then bk else wk)
                         in score1 + evaluateKingSafety_sf b2 myKingPos col0
                                   - evaluateKingSafety_sf b2 oppKingPos (getOpponent col0))
                    | _ \<Rightarrow> score1)
      in (score2 + evaluatePawnStructure_sf b2 col0, b2))"

text \<open>
  Two of the terms that \<^verbatim>\<open>evaluate\<close> adds up: the score of its first loop (material and
  piece-square values), and the mobility term
  \<^verbatim>\<open>(myMobility - oppMobility) * 10\<close>. The others are king safety and pawn structure.
\<close>

definition materialTerm :: "board \<Rightarrow> color \<Rightarrow> int" where
  "materialTerm b col0 =
     accScore (foldl (evaluateSquare b col0)
                 \<lparr>accScore = 0, totalMaterial = 0, whiteKingPos = None, blackKingPos = None\<rparr>
                 allSquares)"

definition mobilityTerm :: "board \<Rightarrow> color \<Rightarrow> int" where
  "mobilityTerm b col0 =
     (int (length (fst (generateAllLegalMoves b col0)))
        - int (length (fst (generateAllLegalMoves b (getOpponent col0))))) * 10"

text \<open>
  \<^verbatim>\<open>quiescenceSearch\<close> and its loop over the ordered captures. The recursion stops when
  \<^verbatim>\<open>depth > 6\<close>.
\<close>

function quiescenceSearch :: "board \<Rightarrow> color \<Rightarrow> int \<Rightarrow> num \<Rightarrow> num \<Rightarrow> num \<times> board"
  and quiescenceLoop :: "board \<Rightarrow> color \<Rightarrow> int \<Rightarrow> int \<Rightarrow> num \<Rightarrow> num \<Rightarrow> sfmove list \<Rightarrow> num \<times> board"
where
  "quiescenceSearch b col0 depth alpha beta =
     (if depth > 6 then (Num (fst (evaluate b col0)), snd (evaluate b col0))
      else
        let standPat = fst (evaluate b col0);
            b1 = snd (evaluate b col0)
        in if num_le beta (Num standPat) then (beta, b1)
           else quiescenceLoop (snd (generateCaptures b1 col0)) col0 depth standPat
                  (num_max alpha (Num standPat)) beta
                  (orderMoves (snd (generateCaptures b1 col0)) (fst (generateCaptures b1 col0))))"
| "quiescenceLoop b col0 depth standPat alpha beta [] = (alpha, b)"
| "quiescenceLoop b col0 depth standPat alpha beta (m # ms) =
     (let captureValue = (case b (sto m) of None \<Rightarrow> 0 | Some p \<Rightarrow> pieceValues (ptype p)) in
      if num_lt (Num (standPat + captureValue + 200)) alpha
      then quiescenceLoop b col0 depth standPat alpha beta ms
      else
        let score = num_neg (fst (quiescenceSearch (snd (makeMove b m)) (getOpponent col0)
                                    (depth + 1) (num_neg beta) (num_neg alpha)));
            b3 = unmakeMove (snd (quiescenceSearch (snd (makeMove b m)) (getOpponent col0)
                                    (depth + 1) (num_neg beta) (num_neg alpha)))
                   m (fst (makeMove b m))
        in if num_le beta score then (beta, b3)
           else quiescenceLoop b3 col0 depth standPat (num_max alpha score) beta ms)"
  by pat_completeness auto
termination
  by (relation "measures
        [\<lambda>x. case x of Inl (b, col0, depth, alpha, beta) \<Rightarrow> 2 * nat (7 - depth)
                      | Inr (b, col0, depth, standPat, alpha, beta, ms) \<Rightarrow> 2 * nat (7 - depth) - 1,
         \<lambda>x. case x of Inl (b, col0, depth, alpha, beta) \<Rightarrow> 0
                      | Inr (b, col0, depth, standPat, alpha, beta, ms) \<Rightarrow> Suc (length ms)]")
     auto

text \<open>
  \<^verbatim>\<open>search\<close> and its loop over the ordered moves. The source recurses on
  \<^verbatim>\<open>depth - 1\<close> and tests \<^verbatim>\<open>depth === 0\<close>, so a negative depth never reaches the leaf;
  the first argument bounds the nesting of calls, and \<open>None\<close> is a search that
  exceeds it.
\<close>

fun search :: "nat \<Rightarrow> board \<Rightarrow> color \<Rightarrow> int \<Rightarrow> num \<Rightarrow> num \<Rightarrow> (num \<times> board) option"
  and searchLoop :: "nat \<Rightarrow> board \<Rightarrow> color \<Rightarrow> int \<Rightarrow> num \<Rightarrow> num \<Rightarrow> sfmove list \<Rightarrow> (num \<times> board) option"
where
  "search 0 b col0 depth alpha beta = None"
| "search (Suc n) b col0 depth alpha beta =
     (if depth = 0 then Some (quiescenceSearch b col0 0 alpha beta)
      else
        let moves = fst (generateAllLegalMoves b col0);
            b1 = snd (generateAllLegalMoves b col0)
        in if moves = [] then
             (if isKingInCheck_sf b1 col0 then Some (Num (-9999 + (4 - depth)), b1)
              else Some (Num 0, b1))
           else searchLoop n b1 col0 depth alpha beta (orderMoves b1 moves))"
| "searchLoop n b col0 depth alpha beta [] = Some (alpha, b)"
| "searchLoop n b col0 depth alpha beta (m # ms) =
     (case search n (snd (makeMove b m)) (getOpponent col0) (depth - 1)
             (num_neg beta) (num_neg alpha) of
        None \<Rightarrow> None
      | Some (v, b2) \<Rightarrow>
          (let score = num_neg v;
               b3 = unmakeMove b2 m (fst (makeMove b m))
           in if num_le beta score then Some (beta, b3)
              else searchLoop n b3 col0 depth (num_max alpha score) beta ms))"

text \<open>A white queen on d4 that can take a black pawn on d5, with quiet moves at hand.\<close>

definition sfBoard :: board where
  "sfBoard = map_of
     [((4, 3), \<lparr>ptype = Queen, pcolor = White, hasMoved = True\<rparr>),
      ((7, 4), \<lparr>ptype = King, pcolor = White, hasMoved = False\<rparr>),
      ((3, 3), \<lparr>ptype = Pawn, pcolor = Black, hasMoved = True\<rparr>),
      ((0, 4), \<lparr>ptype = King, pcolor = Black, hasMoved = False\<rparr>)]"

text \<open>The back-rank mate of \<open>mateState\<close>, and a stalemate: black king a8, white queen c7.\<close>

definition sfMateBoard :: board where
  "sfMateBoard = map_of
     [((0, 7), \<lparr>ptype = King, pcolor = Black, hasMoved = True\<rparr>),
      ((1, 6), \<lparr>ptype = Pawn, pcolor = Black, hasMoved = False\<rparr>),
      ((1, 7), \<lparr>ptype = Pawn, pcolor = Black, hasMoved = False\<rparr>),
      ((0, 0), \<lparr>ptype = Rook, pcolor = White, hasMoved = True\<rparr>),
      ((7, 4), \<lparr>ptype = King, pcolor = White, hasMoved = True\<rparr>)]"

definition sfStaleBoard :: board where
  "sfStaleBoard = map_of
     [((0, 0), \<lparr>ptype = King, pcolor = Black, hasMoved = True\<rparr>),
      ((1, 2), \<lparr>ptype = Queen, pcolor = White, hasMoved = True\<rparr>),
      ((7, 4), \<lparr>ptype = King, pcolor = White, hasMoved = True\<rparr>)]"

text \<open>A board from which the white king is missing.\<close>

definition kinglessBoard :: board where
  "kinglessBoard = map_of
     [((0, 4), \<lparr>ptype = King, pcolor = Black, hasMoved = True\<rparr>),
      ((0, 0), \<lparr>ptype = Rook, pcolor = Black, hasMoved = True\<rparr>),
      ((6, 0), \<lparr>ptype = Pawn, pcolor = White, hasMoved = False\<rparr>)]"

section \<open>ChessEngineSystem: minimax and the choice of the best move\<close>

text \<open>
  The search compares scores and never computes with them, so a score is a \<open>num\<close>
  ordered as JavaScript orders numbers, with \<^verbatim>\<open>-Infinity\<close> below and \<^verbatim>\<open>Infinity\<close>
  above every integer.
\<close>

instantiation num :: linorder
begin

definition less_eq_num :: "num \<Rightarrow> num \<Rightarrow> bool" where
  "less_eq_num x y \<longleftrightarrow> num_le x y"

definition less_num :: "num \<Rightarrow> num \<Rightarrow> bool" where
  "less_num x y \<longleftrightarrow> num_le x y \<and> \<not> num_le y x"

instance
proof
  fix x y z :: num
  show "(x < y) = (x \<le> y \<and> \<not> y \<le> x)"
    by (simp add: less_eq_num_def less_num_def)
  show "x \<le> x"
    by (cases x) (simp_all add: less_eq_num_def)
  show "x \<le> y \<Longrightarrow> y \<le> z \<Longrightarrow> x \<le> z"
    by (cases x; cases y; cases z) (simp_all add: less_eq_num_def)
  show "x \<le> y \<Longrightarrow> y \<le> x \<Longrightarrow> x = y"
    by (cases x; cases y) (simp_all add: less_eq_num_def)
  show "x \<le> y \<or> y \<le> x"
    by (cases x; cases y) (auto simp: less_eq_num_def)
qed

end

text \<open>
  \<^verbatim>\<open>getAllPossibleMoves(engine, color)\<close>: every legal target of every piece of the colour,
  as \<^verbatim>\<open>{ from, to }\<close>, in loop order. The engine's generator runs on the live board.
\<close>

fun getAllPossibleMoves_loop :: "engine \<Rightarrow> color \<Rightarrow> square list \<Rightarrow> (square \<times> square) list \<times> engine" where
  "getAllPossibleMoves_loop e col0 [] = ([], e)"
| "getAllPossibleMoves_loop e col0 ((row, col) # sqs) =
     (case board e (row, col) of
        None \<Rightarrow> getAllPossibleMoves_loop e col0 sqs
      | Some p \<Rightarrow>
          if pcolor p = col0 then
            (let (targets, e1) = calculatePossibleMoves e row col;
                 (rest, e2) = getAllPossibleMoves_loop e1 col0 sqs
             in (map (\<lambda>t. ((row, col), t)) targets @ rest, e2))
          else getAllPossibleMoves_loop e col0 sqs)"

definition getAllPossibleMoves :: "engine \<Rightarrow> color \<Rightarrow> (square \<times> square) list \<times> engine" where
  "getAllPossibleMoves e col0 = getAllPossibleMoves_loop e col0 allSquares"

text \<open>
  \<^verbatim>\<open>shuffleArray\<close> walks \<^verbatim>\<open>i\<close> from the last index down to 1 and swaps position \<^verbatim>\<open>i\<close>
  with position \<^verbatim>\<open>j = Math.floor(Math.random() * (i + 1))\<close>. The draws \<^verbatim>\<open>j\<close> are an
  explicit argument; \<^verbatim>\<open>Math.random()\<close> is below 1, so each draw is at most \<^verbatim>\<open>i\<close>.
\<close>

fun shuffleFrom :: "nat \<Rightarrow> nat list \<Rightarrow> 'a list \<Rightarrow> 'a list" where
  "shuffleFrom 0 js xs = xs"
| "shuffleFrom (Suc i) [] xs = xs"
| "shuffleFrom (Suc i) (j # js) xs =
     shuffleFrom i js (if j \<le> Suc i then xs[Suc i := xs ! j, j := xs ! Suc i] else xs)"

definition shuffleArray :: "nat list \<Rightarrow> 'a list \<Rightarrow> 'a list" where
  "shuffleArray js xs = shuffleFrom (length xs - 1) js xs"

text \<open>
  \<^verbatim>\<open>minimax\<close> with its two loops. \<^verbatim>\<open>evaluatePosition\<close> computes in floating point with
  the personality weights; the search uses its result only in comparisons, and it is the
  parameter \<open>ev\<close>, a function of the engine and the colour. The first argument bounds the
  nesting of calls: the source counts \<^verbatim>\<open>depth\<close> down and stops at \<^verbatim>\<open>depth === 0\<close> only,
  and a call nested deeper than the bound is the \<^verbatim>\<open>RangeError\<close> of an exhausted stack.
\<close>

datatype failure = RangeError | UndoTypeError

fun minimax :: "nat \<Rightarrow> (engine \<Rightarrow> color \<Rightarrow> num) \<Rightarrow> engine \<Rightarrow> int \<Rightarrow> bool \<Rightarrow> num \<Rightarrow> num
                 \<Rightarrow> failure + (num \<times> engine)"
  and minimaxLoop :: "nat \<Rightarrow> (engine \<Rightarrow> color \<Rightarrow> num) \<Rightarrow> engine \<Rightarrow> int \<Rightarrow> bool \<Rightarrow> num \<Rightarrow> num \<Rightarrow> num
                 \<Rightarrow> (square \<times> square) list \<Rightarrow> failure + (num \<times> engine)"
where
  "minimax 0 ev e depth isMaximizing alpha beta = Inl RangeError"
| "minimax (Suc n) ev e depth isMaximizing alpha beta =
     (if depth = 0 \<or> gameOver e then
        Inr (ev e (if isMaximizing then White else Black), e)
      else
        let col0 = (if isMaximizing then White else Black);
            allMoves = fst (getAllPossibleMoves e col0);
            e1 = snd (getAllPossibleMoves e col0)
        in minimaxLoop n ev e1 depth isMaximizing
             (if isMaximizing then NegInf else PosInf) alpha beta allMoves)"
| "minimaxLoop n ev e depth isMaximizing best alpha beta [] = Inr (best, e)"
| "minimaxLoop n ev e depth isMaximizing best alpha beta (m # ms) =
     (case sys_makeMove e m of
        None \<Rightarrow> minimaxLoop n ev e depth isMaximizing best alpha beta ms
      | Some (e1, orig) \<Rightarrow>
          (case minimax n ev e1 (depth - 1) (\<not> isMaximizing) alpha beta of
             Inl x \<Rightarrow> Inl x
           | Inr (evaluation, e2) \<Rightarrow>
               (case sys_undoMove e2 orig m of
                  Inl x \<Rightarrow> Inl UndoTypeError
                | Inr e3 \<Rightarrow>
                    if isMaximizing then
                      (let maxEval = max best evaluation;
                           alpha' = max alpha evaluation
                       in if beta \<le> alpha' then Inr (maxEval, e3)
                          else minimaxLoop n ev e3 depth isMaximizing maxEval alpha' beta ms)
                    else
                      (let minEval = min best evaluation;
                           beta' = min beta evaluation
                       in if beta' \<le> alpha then Inr (minEval, e3)
                          else minimaxLoop n ev e3 depth isMaximizing minEval alpha beta' ms))))"

text \<open>
  The loop of \<^verbatim>\<open>getBestMoveMinMax\<close> over the shuffled moves, with its two locals
  \<^verbatim>\<open>bestMove\<close> and \<^verbatim>\<open>bestScore\<close>.
\<close>

fun bestMoveLoop :: "nat \<Rightarrow> (engine \<Rightarrow> color \<Rightarrow> num) \<Rightarrow> engine \<Rightarrow> int \<Rightarrow> bool
                 \<Rightarrow> (square \<times> square) option \<Rightarrow> num \<Rightarrow> (square \<times> square) list
                 \<Rightarrow> failure + ((square \<times> square) option \<times> num \<times> engine)" where
  "bestMoveLoop n ev e depth isMaximizing bestMove bestScore [] = Inr (bestMove, bestScore, e)"
| "bestMoveLoop n ev e depth isMaximizing bestMove bestScore (m # ms) =
     (case sys_makeMove e m of
        None \<Rightarrow> bestMoveLoop n ev e depth isMaximizing bestMove bestScore ms
      | Some (e1, orig) \<Rightarrow>
          (case minimax n ev e1 (depth - 1) (\<not> isMaximizing) NegInf PosInf of
             Inl x \<Rightarrow> Inl x
           | Inr (score, e2) \<Rightarrow>
               (case sys_undoMove e2 orig m of
                  Inl x \<Rightarrow> Inl UndoTypeError
                | Inr e3 \<Rightarrow>
                    if (if isMaximizing then score > bestScore else score < bestScore)
                    then bestMoveLoop n ev e3 depth isMaximizing (Some m) score ms
                    else bestMoveLoop n ev e3 depth isMaximizing bestMove bestScore ms)))"

text \<open>
  \<^verbatim>\<open>getBestMoveMinMax\<close> returns \<^verbatim>\<open>bestMove || allMoves[0]\<close>; the model returns with it
  the final \<^verbatim>\<open>bestScore\<close> and the engine the call leaves behind. \<open>js\<close> are the draws of
  the shuffle.
\<close>

definition getBestMoveMinMax :: "nat \<Rightarrow> (engine \<Rightarrow> color \<Rightarrow> num) \<Rightarrow> nat list \<Rightarrow> engine \<Rightarrow> color \<Rightarrow> int
                 \<Rightarrow> failure + ((square \<times> square) option \<times> num \<times> engine)" where
  "getBestMoveMinMax n ev js e col0 depth =
     (let isMaximizing = (col0 = White);
          allMoves = shuffleArray js (fst (getAllPossibleMoves e col0));
          e1 = snd (getAllPossibleMoves e col0)
      in case bestMoveLoop n ev e1 depth isMaximizing None
                (if isMaximizing then NegInf else PosInf) allMoves of
           Inl x \<Rightarrow> Inl x
         | Inr (bestMove, bestScore, e2) \<Rightarrow>
             Inr (case bestMove of
                    Some m \<Rightarrow> Some m
                  | None \<Rightarrow> (case allMoves of [] \<Rightarrow> None | m0 # rest \<Rightarrow> Some m0),
                  bestScore, e2))"

text \<open>The material term of \<^verbatim>\<open>evaluatePosition\<close>, which is an integer.\<close>

definition evaluateMaterial :: "engine \<Rightarrow> color \<Rightarrow> int" where
  "evaluateMaterial e forColor =
     sum_list (map (\<lambda>sq. case board e sq of
                       None \<Rightarrow> 0
                     | Some p \<Rightarrow> if pcolor p = forColor then pieceValues (ptype p)
                                 else - pieceValues (ptype p))
                   allSquares)"

text \<open>
  The score the loop of \<^verbatim>\<open>getBestMoveMinMax\<close> computes for one move (\<open>None\<close> when the
  move is skipped or the search fails), and the update of \<^verbatim>\<open>bestScore\<close>.
\<close>

definition rootScore :: "nat \<Rightarrow> (engine \<Rightarrow> color \<Rightarrow> num) \<Rightarrow> engine \<Rightarrow> int \<Rightarrow> bool \<Rightarrow> square \<times> square \<Rightarrow> num option" where
  "rootScore n ev e depth isMaximizing m =
     (case sys_makeMove e m of
        None \<Rightarrow> None
      | Some (e1, orig) \<Rightarrow>
          (case minimax n ev e1 (depth - 1) (\<not> isMaximizing) NegInf PosInf of
             Inl x \<Rightarrow> None
           | Inr (score, e2) \<Rightarrow> Some score))"

definition better :: "bool \<Rightarrow> num \<Rightarrow> num \<Rightarrow> num" where
  "better isMaximizing score bestScore =
     (if (if isMaximizing then score > bestScore else score < bestScore) then score else bestScore)"

text \<open>An evaluation for the examples: the material balance alone.\<close>

definition materialEval :: "engine \<Rightarrow> color \<Rightarrow> num" where
  "materialEval e forColor = Num (evaluateMaterial e forColor)"

section \<open>ChessEngine: the engine of the game page\<close>

text \<open>
  The class \<^verbatim>\<open>ChessEngine\<close> has the fields of \<^verbatim>\<open>ChessEngineCore\<close> without the
  configuration (the wall-clock stamp is left out here too). Its history entries carry flags for promotion, castling and en passant.
  \<^verbatim>\<open>{ ...null }\<close> is the empty object, which its \<^verbatim>\<open>movePiece\<close> can store as the
  captured piece and can push, as \<^verbatim>\<open>null\<close>, on the captured list.
\<close>

datatype capture = NoCapture | Captured piece | EmptyObject

record ce_move =
  ce_from :: square
  ce_to :: square
  ce_piece :: piece
  ce_captured :: capture
  ce_promotion :: bool
  ce_castling :: "(bool \<times> int \<times> int) option"
  ce_enPassant :: bool

record chessEngine =
  ce_board :: board
  ce_turn :: color
  ce_selectedSquare :: "square option"
  ce_possibleMoves :: "square list"
  ce_moveHistory :: "ce_move list"
  ce_capturedPieces :: "color \<Rightarrow> piece option list"
  ce_check :: bool
  ce_gameOver :: bool
  ce_lastMove :: "ce_move option"
  ce_promotingPawn :: "square option"
  ce_gameTime :: int
  ce_moveCount :: int
  ce_checksGiven :: int
  ce_castlesPerformed :: int
  ce_enPassantCount :: int
  ce_flipped :: bool

datatype ce_result = ReturnedFalse | ReturnedPromotion | ReturnedNormal

datatype game_status = CheckmateStatus | StalemateStatus | CheckStatus | Playing

definition rookDirs_ce :: "(int \<times> int) list" where
  "rookDirs_ce = [(1, 0), (-1, 0), (0, 1), (0, -1)]"

definition bishopDirs_ce :: "(int \<times> int) list" where
  "bishopDirs_ce = [(1, 1), (1, -1), (-1, 1), (-1, -1)]"

definition queenDirs_ce :: "(int \<times> int) list" where
  "queenDirs_ce = [(1, 0), (-1, 0), (0, 1), (0, -1), (1, 1), (1, -1), (-1, 1), (-1, -1)]"

definition knightOffsets_ce :: "(int \<times> int) list" where
  "knightOffsets_ce = [(2, 1), (2, -1), (-2, 1), (-2, -1), (1, 2), (1, -2), (-1, 2), (-1, -2)]"

text \<open>The squares \<^verbatim>\<open>for r = row - 1 .. row + 1, for c = col - 1 .. col + 1\<close> but the centre.\<close>

definition neighbours_ce :: "int \<Rightarrow> int \<Rightarrow> square list" where
  "neighbours_ce row col =
     filter (\<lambda>(r, c). (r \<noteq> row \<or> c \<noteq> col) \<and> isInBounds r c)
       (concat (map (\<lambda>r. map (\<lambda>c. (r, c)) [col - 1, col, col + 1]) [row - 1, row, row + 1]))"

definition slides_ce :: "board \<Rightarrow> color \<Rightarrow> int \<Rightarrow> int \<Rightarrow> (int \<times> int) list \<Rightarrow> square list" where
  "slides_ce b opponentColor row col dirs =
     concat (map (\<lambda>(dr, dc). addDirectionalMoves b opponentColor (row + dr) (col + dc) dr dc) dirs)"

definition calculateRawMoves :: "board \<Rightarrow> int \<Rightarrow> int \<Rightarrow> square list" where
  "calculateRawMoves b row col =
     (case b (row, col) of
        None \<Rightarrow> []
      | Some p \<Rightarrow>
          (let col0 = pcolor p;
               opponentColor = (if col0 = White then Black else White)
           in case ptype p of
                Pawn \<Rightarrow>
                  (let dir = (if col0 = White then -1 else 1) in
                   concat (map (\<lambda>dc. if isInBounds (row + dir) (col + dc)
                                      then [(row + dir, col + dc)] else []) [-1, 1]))
              | Rook \<Rightarrow> slides_ce b opponentColor row col rookDirs_ce
              | Knight \<Rightarrow>
                  concat (map (\<lambda>(dr, dc). if isInBounds (row + dr) (col + dc)
                                           then [(row + dr, col + dc)] else [])
                              knightOffsets_ce)
              | Bishop \<Rightarrow> slides_ce b opponentColor row col bishopDirs_ce
              | Queen \<Rightarrow> slides_ce b opponentColor row col queenDirs_ce
              | King \<Rightarrow> neighbours_ce row col))"

definition isSquareAttacked_ce :: "board \<Rightarrow> int \<Rightarrow> int \<Rightarrow> color \<Rightarrow> bool" where
  "isSquareAttacked_ce b row col attackerColor =
     list_ex (\<lambda>(r, c). case b (r, c) of
                 None \<Rightarrow> False
               | Some p \<Rightarrow> pcolor p = attackerColor
                           \<and> list_ex (\<lambda>(tr, tc). tr = row \<and> tc = col) (calculateRawMoves b r c))
             allSquares"

text \<open>
  \<^verbatim>\<open>ChessEngine.isKingInCheck\<close>. Without a king the coordinates stay \<^verbatim>\<open>undefined\<close>, no
  raw move equals them, and the result is \<^verbatim>\<open>false\<close>.
\<close>

definition isKingInCheck_ce :: "board \<Rightarrow> color \<Rightarrow> bool" where
  "isKingInCheck_ce b col0 =
     (case find (\<lambda>sq. case b sq of None \<Rightarrow> False
                      | Some p \<Rightarrow> ptype p = King \<and> pcolor p = col0) allSquares of
        None \<Rightarrow> False
      | Some (kingRow, kingCol) \<Rightarrow>
          isSquareAttacked_ce b kingRow kingCol (if col0 = White then Black else White))"

definition castling_ce :: "board \<Rightarrow> piece \<Rightarrow> int \<Rightarrow> color \<Rightarrow> color \<Rightarrow> square list" where
  "castling_ce b p row col0 opponentColor =
     (if \<not> hasMoved p \<and> \<not> isKingInCheck_ce b col0 then
        (case b (row, 7) of
           None \<Rightarrow> []
         | Some kingsideRook \<Rightarrow>
             if ptype kingsideRook = Rook \<and> \<not> hasMoved kingsideRook
                \<and> b (row, 5) = None \<and> b (row, 6) = None
                \<and> \<not> isSquareAttacked_ce b row 5 opponentColor
                \<and> \<not> isSquareAttacked_ce b row 6 opponentColor
             then [(row, 6)] else [])
        @
        (case b (row, 0) of
           None \<Rightarrow> []
         | Some queensideRook \<Rightarrow>
             if ptype queensideRook = Rook \<and> \<not> hasMoved queensideRook
                \<and> b (row, 1) = None \<and> b (row, 2) = None \<and> b (row, 3) = None
                \<and> \<not> isSquareAttacked_ce b row 2 opponentColor
                \<and> \<not> isSquareAttacked_ce b row 3 opponentColor
             then [(row, 2)] else [])
      else [])"

definition enPassantTarget_ce :: "ce_move option \<Rightarrow> color \<Rightarrow> int \<Rightarrow> int \<Rightarrow> bool" where
  "enPassantTarget_ce lm opponentColor row c =
     (case lm of
        None \<Rightarrow> False
      | Some m \<Rightarrow> ptype (ce_piece m) = Pawn \<and> pcolor (ce_piece m) = opponentColor
                 \<and> \<bar>fst (ce_from m) - fst (ce_to m)\<bar> = 2
                 \<and> fst (ce_to m) = row \<and> snd (ce_to m) = c)"

definition pseudoLegalMoves_ce :: "board \<Rightarrow> ce_move option \<Rightarrow> piece \<Rightarrow> int \<Rightarrow> int \<Rightarrow> square list" where
  "pseudoLegalMoves_ce b lm p row col =
     (let col0 = pcolor p;
          opponentColor = (if col0 = White then Black else White)
      in case ptype p of
           Pawn \<Rightarrow>
             (let dir = (if col0 = White then -1 else 1);
                  forward =
                    (if isInBounds (row + dir) col \<and> b (row + dir, col) = None then
                       (row + dir, col) #
                       (if \<not> hasMoved p \<and> isInBounds (row + 2 * dir) col
                           \<and> b (row + 2 * dir, col) = None
                        then [(row + 2 * dir, col)] else [])
                     else []);
                  diag = (\<lambda>dc. let r = row + dir; c = col + dc in
                            if isInBounds r c then
                              (if isOpponentAt b r c opponentColor then [(r, c)] else []) @
                              (if b (r, c) = None \<and> enPassantTarget_ce lm opponentColor row c
                               then [(r, c)] else [])
                            else [])
              in forward @ diag (-1) @ diag 1)
         | Rook \<Rightarrow> slides_ce b opponentColor row col rookDirs_ce
         | Knight \<Rightarrow>
             concat (map (\<lambda>(dr, dc). let r = row + dr; c = col + dc in
                            if isInBounds r c \<and> emptyOrOpponent b r c opponentColor
                            then [(r, c)] else [])
                         knightOffsets_ce)
         | Bishop \<Rightarrow> slides_ce b opponentColor row col bishopDirs_ce
         | Queen \<Rightarrow> slides_ce b opponentColor row col queenDirs_ce
         | King \<Rightarrow>
             filter (\<lambda>(r, c). emptyOrOpponent b r c opponentColor) (neighbours_ce row col)
             @ castling_ce b p row col0 opponentColor)"

text \<open>The filter at the end of \<^verbatim>\<open>ChessEngine.calculatePossibleMoves\<close>, on the live board.\<close>

fun filterMoves_ce :: "board \<Rightarrow> int \<Rightarrow> int \<Rightarrow> color \<Rightarrow> square list \<Rightarrow> square list \<times> board" where
  "filterMoves_ce b row col col0 [] = ([], b)"
| "filterMoves_ce b row col col0 ((tr, tc) # ms) =
     (let original = b (tr, tc);
          b1 = b((tr, tc) := b (row, col));
          b2 = b1((row, col) := None);
          inCheck = isKingInCheck_ce b2 col0;
          b3 = b2((row, col) := b2 (tr, tc));
          b4 = b3((tr, tc) := original);
          (rest, b5) = filterMoves_ce b4 row col col0 ms
      in (if inCheck then rest else (tr, tc) # rest, b5))"

definition calculatePossibleMoves_ce :: "chessEngine \<Rightarrow> int \<Rightarrow> int \<Rightarrow> square list \<times> chessEngine" where
  "calculatePossibleMoves_ce s row col =
     (case ce_board s (row, col) of
        None \<Rightarrow> ([], s)
      | Some p \<Rightarrow>
          let moves = pseudoLegalMoves_ce (ce_board s) (ce_lastMove s) p row col;
              (legal, b') = filterMoves_ce (ce_board s) row col (pcolor p) moves
          in (legal, s\<lparr>ce_board := b'\<rparr>))"

definition switchTurns :: "chessEngine \<Rightarrow> chessEngine" where
  "switchTurns s = s\<lparr>ce_turn := (if ce_turn s = White then Black else White)\<rparr>"

text \<open>The search for a legal move in \<^verbatim>\<open>checkGameStatus\<close>, which stops at the first one.\<close>

fun hasLegalMoves_ce :: "chessEngine \<Rightarrow> square list \<Rightarrow> bool \<times> chessEngine" where
  "hasLegalMoves_ce s [] = (False, s)"
| "hasLegalMoves_ce s ((r, c) # sqs) =
     (case ce_board s (r, c) of
        None \<Rightarrow> hasLegalMoves_ce s sqs
      | Some p \<Rightarrow>
          if pcolor p = ce_turn s then
            (let (moves, s1) = calculatePossibleMoves_ce s r c in
             if length moves > 0 then (True, s1) else hasLegalMoves_ce s1 sqs)
          else hasLegalMoves_ce s sqs)"

definition checkGameStatus :: "chessEngine \<Rightarrow> game_status \<times> chessEngine" where
  "checkGameStatus s =
     (let inCheck = isKingInCheck_ce (ce_board s) (ce_turn s);
          s1 = s\<lparr>ce_checksGiven := (if inCheck then ce_checksGiven s + 1 else ce_checksGiven s),
                 ce_check := inCheck\<rparr>;
          (hasLegalMoves, s2) = hasLegalMoves_ce s1 allSquares
      in if \<not> hasLegalMoves then
           (if inCheck then CheckmateStatus else StalemateStatus, s2\<lparr>ce_gameOver := True\<rparr>)
         else if inCheck then (CheckStatus, s2)
         else (Playing, s2))"

text \<open>
  \<^verbatim>\<open>ChessEngine.movePiece\<close>. Nothing checks the request against the legal moves; a row
  outside 0..7 raises when \<^verbatim>\<open>this.board[row]\<close> is indexed, and so does a castling step
  that finds no rook to mark.
\<close>

definition movePiece_ce :: "chessEngine \<Rightarrow> int \<Rightarrow> int \<Rightarrow> int \<Rightarrow> int \<Rightarrow> exn + (ce_result \<times> chessEngine)" where
  "movePiece_ce s fromRow fromCol toRow toCol =
     (if fromRow < 0 \<or> fromRow > 7 then Inl TypeError
      else case (if fromCol < 0 \<or> fromCol > 7 then None else ce_board s (fromRow, fromCol)) of
        None \<Rightarrow> Inr (ReturnedFalse, s)
      | Some p \<Rightarrow>
          if toRow < 0 \<or> toRow > 7 then Inl TypeError
          else
            let b = ce_board s;
                isPawnPromotion = (ptype p = Pawn
                   \<and> ((pcolor p = White \<and> toRow = 0) \<or> (pcolor p = Black \<and> toRow = 7)));
                diagonalToEmpty = (ptype p = Pawn \<and> fromCol \<noteq> toCol \<and> b (toRow, toCol) = None);
                mv = \<lparr>ce_from = (fromRow, fromCol), ce_to = (toRow, toCol), ce_piece = p,
                      ce_captured =
                        (case b (toRow, toCol) of
                           Some t \<Rightarrow> Captured t
                         | None \<Rightarrow>
                             if diagonalToEmpty then
                               (case b (fromRow, toCol) of
                                  Some t \<Rightarrow> Captured t
                                | None \<Rightarrow> EmptyObject)
                             else NoCapture),
                      ce_promotion = isPawnPromotion, ce_castling = None, ce_enPassant = False\<rparr>;
                s1 = (case b (toRow, toCol) of
                        Some t \<Rightarrow>
                          s\<lparr>ce_capturedPieces := (ce_capturedPieces s)
                               (ce_turn s := ce_capturedPieces s (ce_turn s) @ [Some t])\<rparr>
                      | None \<Rightarrow>
                          if diagonalToEmpty then
                            s\<lparr>ce_capturedPieces := (ce_capturedPieces s)
                                 (ce_turn s := ce_capturedPieces s (ce_turn s) @ [b (fromRow, toCol)]),
                               ce_board := b((fromRow, toCol) := None),
                               ce_enPassantCount := ce_enPassantCount s + 1\<rparr>
                          else s);
                mv1 = (if b (toRow, toCol) = None \<and> diagonalToEmpty
                       then mv\<lparr>ce_enPassant := True\<rparr> else mv);
                isCastle = (ptype p = King \<and> \<bar>toCol - fromCol\<bar> = 2);
                isKingside = toCol > fromCol;
                rookFromCol = (if isKingside then 7 else 0);
                rookToCol = (if isKingside then 5 else 3)
            in if isCastle \<and> ce_board s1 (toRow, rookFromCol) = None then Inl TypeError
               else
                 let s2 = (if isCastle then
                             s1\<lparr>ce_board := (ce_board s1)
                                  ((toRow, rookToCol) :=
                                      map_option (\<lambda>rk. rk\<lparr>hasMoved := True\<rparr>)
                                        (ce_board s1 (toRow, rookFromCol)),
                                   (toRow, rookFromCol) := None),
                                ce_castlesPerformed := ce_castlesPerformed s1 + 1\<rparr>
                           else s1);
                     mv2 = (if isCastle
                            then mv1\<lparr>ce_castling := Some (isKingside, rookFromCol, rookToCol)\<rparr>
                            else mv1);
                     p' = (if ptype p = Pawn \<or> ptype p = Rook \<or> ptype p = King
                           then p\<lparr>hasMoved := True\<rparr> else p);
                     s3 = s2\<lparr>ce_board := (ce_board s2)
                               ((toRow, toCol) := Some p', (fromRow, fromCol) := None),
                            ce_lastMove := Some mv2,
                            ce_moveHistory := ce_moveHistory s2 @ [mv2],
                            ce_moveCount := ce_moveCount s2 + 1\<rparr>
                 in if isPawnPromotion
                    then Inr (ReturnedPromotion, s3\<lparr>ce_promotingPawn := Some (toRow, toCol)\<rparr>)
                    else Inr (ReturnedNormal, snd (checkGameStatus (switchTurns s3))))"

text \<open>\<^verbatim>\<open>ChessEngine.completePromotion\<close>: it rewrites the type of the pawn on the pending square.\<close>

definition completePromotion_ce :: "chessEngine \<Rightarrow> piece_type \<Rightarrow> exn + chessEngine" where
  "completePromotion_ce s pieceType =
     (case ce_promotingPawn s of
        None \<Rightarrow> Inr s
      | Some (row, col) \<Rightarrow>
          (case ce_board s (row, col) of
             None \<Rightarrow> Inl TypeError
           | Some p \<Rightarrow>
               Inr (snd (checkGameStatus (switchTurns
                      (s\<lparr>ce_board := (ce_board s)((row, col) := Some (p\<lparr>ptype := pieceType\<rparr>)),
                         ce_promotingPawn := None\<rparr>))))))"

text \<open>The promotion position \<open>promoState\<close> in a \<^verbatim>\<open>ChessEngine\<close>.\<close>

definition promoState_ce :: chessEngine where
  "promoState_ce = \<lparr>ce_board = map_of
       [((1, 0), \<lparr>ptype = Pawn, pcolor = White, hasMoved = True\<rparr>),
        ((7, 4), \<lparr>ptype = King, pcolor = White, hasMoved = True\<rparr>),
        ((0, 4), \<lparr>ptype = King, pcolor = Black, hasMoved = True\<rparr>)],
     ce_turn = White, ce_selectedSquare = None, ce_possibleMoves = [],
     ce_moveHistory = [], ce_capturedPieces = (\<lambda>_. []), ce_check = False, ce_gameOver = False,
     ce_lastMove = None, ce_promotingPawn = None, ce_gameTime = 0, ce_moveCount = 0,
     ce_checksGiven = 0, ce_castlesPerformed = 0, ce_enPassantCount = 0, ce_flipped = False\<rparr>"

section \<open>Positions and scripts used in the examples\<close>

definition mkPiece :: "piece_type \<Rightarrow> color \<Rightarrow> bool \<Rightarrow> piece" where
  "mkPiece t c m = \<lparr>ptype = t, pcolor = c, hasMoved = m\<rparr>"

definition boardOf :: "(square \<times> piece) list \<Rightarrow> board" where
  "boardOf ps = map_of ps"

text \<open>The constructor's default configuration and an engine holding a given position.\<close>

definition defaultConfig :: config where
  "defaultConfig = \<lparr>allowUndo = True, maxMoveHistory = 100, enableAnalytics = True\<rparr>"

definition engineOf :: "board \<Rightarrow> color \<Rightarrow> engine" where
  "engineOf b t = \<lparr>board = b, turn = t, selectedSquare = None, possibleMoves = [],
     moveHistory = [], capturedPieces = (\<lambda>_. []), check = False, gameOver = False,
     lastMove = None, promotingPawn = None, gameTime = 0, moveCount = 0, checksGiven = 0,
     castlesPerformed = 0, enPassantCount = 0, flipped = False, config = defaultConfig\<rparr>"

text \<open>
  White king a5, white pawn b5, black rook h5, black pawn c7, black king e8; Black to move.
  After the black pawn's double step to c5 the white pawn may capture en passant.
\<close>

definition epBoard0 :: board where
  "epBoard0 = boardOf
     [((3, 0), mkPiece King White True), ((3, 1), mkPiece Pawn White True),
      ((1, 2), mkPiece Pawn Black False), ((3, 7), mkPiece Rook Black True),
      ((0, 4), mkPiece King Black True)]"

definition epStart :: engine where
  "epStart = engineOf epBoard0 Black"

text \<open>The same position after the double step, as \<^verbatim>\<open>movePiece\<close> records it.\<close>

definition epBoard :: board where
  "epBoard = boardOf
     [((3, 0), mkPiece King White True), ((3, 1), mkPiece Pawn White True),
      ((3, 2), mkPiece Pawn Black True), ((3, 7), mkPiece Rook Black True),
      ((0, 4), mkPiece King Black True)]"

definition epState :: engine where
  "epState = (engineOf epBoard White)\<lparr>lastMove := Some \<lparr>mfrom = (1, 2), mto = (3, 2),
      mpiece = mkPiece Pawn Black False, captured = None, boardState = epBoard0\<rparr>\<rparr>"

text \<open>
  Black king h8 behind its pawns g7 and h7, white rook a8 giving check on the back rank.
\<close>

definition mateState :: engine where
  "mateState = (engineOf (boardOf
     [((0, 7), mkPiece King Black True), ((1, 6), mkPiece Pawn Black False),
      ((1, 7), mkPiece Pawn Black False), ((0, 0), mkPiece Rook White True),
      ((7, 4), mkPiece King White True)]) Black)\<lparr>check := True\<rparr>"

text \<open>
  The same black king and pawns, with a white pawn on a7 about to promote; White to move.
\<close>

definition cornerStart :: engine where
  "cornerStart = engineOf (boardOf
     [((0, 7), mkPiece King Black True), ((1, 6), mkPiece Pawn Black False),
      ((1, 7), mkPiece Pawn Black False), ((1, 0), mkPiece Pawn White True),
      ((7, 4), mkPiece King White True)]) White"

text \<open>A white pawn on a7 about to promote on a8, the black king on e8.\<close>

definition promoState :: engine where
  "promoState = engineOf (boardOf
     [((1, 0), mkPiece Pawn White True), ((7, 4), mkPiece King White True),
      ((0, 4), mkPiece King Black True)]) White"

text \<open>
  A sequence of apply/undo pairs is a tree: apply a move, run the pairs nested inside it,
  undo, and go on with the pairs that follow. \<open>runPairs\<close> is \<open>None\<close> when a request is
  rejected or raises, or when \<^verbatim>\<open>undoMove\<close> returns \<^verbatim>\<open>false\<close>.
\<close>

datatype script = Done | Pair "int \<times> int \<times> int \<times> int" script script

fun runPairs :: "script \<Rightarrow> engine \<Rightarrow> engine option" where
  "runPairs Done s = Some s"
| "runPairs (Pair (fromRow, fromCol, toRow, toCol) inner rest) s =
     (case movePiece s fromRow fromCol toRow toCol of
        Inl e \<Rightarrow> None
      | Inr (res, s1) \<Rightarrow>
          if res = Invalid then None
          else (case runPairs inner s1 of
                  None \<Rightarrow> None
                | Some s2 \<Rightarrow>
                    (case undoMove s2 of
                       (False, s3) \<Rightarrow> None
                     | (True, s3) \<Rightarrow> runPairs rest s3)))"

definition epScript :: script where
  "epScript = Pair (1, 2, 3, 2) (Pair (3, 1, 2, 2) Done Done) Done"

text \<open>
  A caller issuing \<^verbatim>\<open>movePiece\<close> and \<^verbatim>\<open>undoMove\<close> in a given order, with what each call
  returned. The calls stop at a raise.
\<close>

datatype call = Apply int int int int | Undo

datatype outcome = Moved move_result | Raised | Undone bool

fun runCalls :: "call list \<Rightarrow> engine \<Rightarrow> outcome list \<times> engine" where
  "runCalls [] s = ([], s)"
| "runCalls (Apply fromRow fromCol toRow toCol # cs) s =
     (case movePiece s fromRow fromCol toRow toCol of
        Inl e \<Rightarrow> ([Raised], s)
      | Inr (res, s1) \<Rightarrow> (let (os, s2) = runCalls cs s1 in (Moved res # os, s2)))"
| "runCalls (Undo # cs) s =
     (let (ok, s1) = undoMove s;
          (os, s2) = runCalls cs s1
      in (Undone ok # os, s2))"

text \<open>The position \<open>epStart\<close> in an engine built with undo disabled, and in one built
  with a history of one entry.\<close>

definition noUndoStart :: engine where
  "noUndoStart = epStart\<lparr>config :=
     \<lparr>allowUndo = False, maxMoveHistory = 100, enableAnalytics = True\<rparr>\<rparr>"

definition shortHistoryStart :: engine where
  "shortHistoryStart = epStart\<lparr>config :=
     \<lparr>allowUndo = True, maxMoveHistory = 1, enableAnalytics = True\<rparr>\<rparr>"

section \<open>ChessEngineCore: the generator leaves the board as it found it\<close>

lemma wouldBeInCheck_restores:
  "snd (wouldBeInCheck b fromRow fromCol toRow toCol col0) = b"
  by (auto simp: wouldBeInCheck_def Let_def fun_eq_iff)

lemma filterMoves_restores: "snd (filterMoves b row col col0 ms) = b"
proof (induction ms arbitrary: b)
  case Nil
  show ?case by simp
next
  case (Cons m ms)
  obtain r c where m: "m = (r, c)" by (cases m)
  obtain chk b1 where w: "wouldBeInCheck b row col r c col0 = (chk, b1)"
    by (cases "wouldBeInCheck b row col r c col0")
  have b1: "b1 = b" using wouldBeInCheck_restores [of b row col r c col0] w by simp
  obtain rest b2 where f: "filterMoves b1 row col col0 ms = (rest, b2)"
    by (cases "filterMoves b1 row col col0 ms")
  have "b2 = b1" using Cons.IH [of b1] f by simp
  with m w f b1 show ?case by simp
qed

lemma filterMoves_fst:
  "fst (filterMoves b row col col0 ms) =
     filter (\<lambda>(r, c). \<not> fst (wouldBeInCheck b row col r c col0)) ms"
proof (induction ms)
  case Nil
  show ?case by simp
next
  case (Cons m ms)
  obtain r c where m: "m = (r, c)" by (cases m)
  obtain chk b1 where w: "wouldBeInCheck b row col r c col0 = (chk, b1)"
    by (cases "wouldBeInCheck b row col r c col0")
  have b1: "b1 = b" using wouldBeInCheck_restores [of b row col r c col0] w by simp
  obtain rest b2 where f: "filterMoves b row col col0 ms = (rest, b2)"
    by (cases "filterMoves b row col col0 ms")
  from Cons.IH f have "rest = filter (\<lambda>(r, c). \<not> fst (wouldBeInCheck b row col r c col0)) ms"
    by simp
  with m w f b1 show ?case by simp
qed

lemma calculatePossibleMoves_pure [code]:
  "calculatePossibleMoves s row col =
     (case board s (row, col) of
        None \<Rightarrow> ([], s)
      | Some p \<Rightarrow>
          if pcolor p \<noteq> turn s then ([], s)
          else (filter (\<lambda>(r, c). \<not> fst (wouldBeInCheck (board s) row col r c (pcolor p)))
                  (pseudoLegalMoves (board s) (lastMove s) p row col), s))"
proof (cases "board s (row, col)")
  case None
  then show ?thesis by (simp add: calculatePossibleMoves_def)
next
  case (Some p)
  show ?thesis
  proof (cases "pcolor p = turn s")
    case False
    with Some show ?thesis by (simp add: calculatePossibleMoves_def)
  next
    case True
    define ms where "ms = pseudoLegalMoves (board s) (lastMove s) p row col"
    obtain legal b' where f: "filterMoves (board s) row col (pcolor p) ms = (legal, b')"
      by (cases "filterMoves (board s) row col (pcolor p) ms")
    have b': "b' = board s"
      using filterMoves_restores [of "board s" row col "pcolor p" ms] f by simp
    have "legal = filter (\<lambda>(r, c). \<not> fst (wouldBeInCheck (board s) row col r c (pcolor p))) ms"
      using filterMoves_fst [of "board s" row col "pcolor p" ms] f by simp
    with Some True f b' show ?thesis
      by (simp add: calculatePossibleMoves_def ms_def)
  qed
qed

lemma calculatePossibleMoves_restores: "snd (calculatePossibleMoves s row col) = s"
  by (simp add: calculatePossibleMoves_pure split: option.splits)

lemma hasNoLegalMoves_loop_restores: "snd (hasNoLegalMoves_loop s sqs) = s"
proof (induction sqs)
  case Nil
  show ?case by simp
next
  case (Cons sq sqs)
  obtain row col where sq: "sq = (row, col)" by (cases sq)
  obtain ms s1 where c: "calculatePossibleMoves s row col = (ms, s1)"
    by (cases "calculatePossibleMoves s row col")
  have "s1 = s" using calculatePossibleMoves_restores [of s row col] c by simp
  with sq c Cons.IH show ?case by (simp split: option.splits)
qed

lemma hasNoLegalMoves_restores: "snd (hasNoLegalMoves s) = s"
  by (simp add: hasNoLegalMoves_def hasNoLegalMoves_loop_restores)

lemma isCheckmate_restores: "snd (isCheckmate s) = s"
  by (simp add: isCheckmate_def hasNoLegalMoves_restores)

lemma isStalemate_restores: "snd (isStalemate s) = s"
  by (simp add: isStalemate_def hasNoLegalMoves_restores)

lemma updateGameState_pure [code]:
  "updateGameState s md =
     (let hist = moveHistory s @ [md];
          hist' = (if maxMoveHistory (config s) \<noteq> 0
                      \<and> int (length hist) > maxMoveHistory (config s)
                   then tl hist else hist);
          turn' = opponent (turn s);
          chk = isKingInCheck (board s) turn';
          s1 = s\<lparr>lastMove := Some md, moveHistory := hist',
                 moveCount := moveCount s + 1, turn := turn', check := chk,
                 checksGiven := (if chk then checksGiven s + 1 else checksGiven s)\<rparr>
      in if fst (isCheckmate s1) then s1\<lparr>gameOver := True\<rparr>
         else s1\<lparr>gameOver := fst (isStalemate s1)\<rparr>)"
proof -
  have cm: "\<And>t. isCheckmate t = (fst (isCheckmate t), t)"
    using isCheckmate_restores by (metis prod.collapse)
  have sm: "\<And>t. isStalemate t = (fst (isStalemate t), t)"
    using isStalemate_restores by (metis prod.collapse)
  show ?thesis
    unfolding updateGameState_def Let_def
    by (subst cm, simp only: prod.case, subst sm, simp only: prod.case)
qed

lemma updateGameState_board: "board (updateGameState s md) = board s"
  by (simp add: updateGameState_pure Let_def)

lemma updateGameState_history:
  "moveHistory (updateGameState s md) =
     (if maxMoveHistory (config s) \<noteq> 0
         \<and> int (length (moveHistory s @ [md])) > maxMoveHistory (config s)
      then tl (moveHistory s @ [md]) else moveHistory s @ [md])"
  by (simp add: updateGameState_pure Let_def)

section \<open>ChessEngineCore: rejected requests\<close>

lemma find_None_set: "find (\<lambda>(r, c). r = toRow \<and> c = toCol) ms = None \<longleftrightarrow> (toRow, toCol) \<notin> set ms"
  by (induction ms) auto

text \<open>
  C3, as the code has it. For an origin row in 0..7, a request to \<^verbatim>\<open>movePiece\<close> whose
  origin square is empty, holds a piece of the side not to move, or whose destination is
  not among the legal moves of the origin, returns the sentinel \<^verbatim>\<open>'invalid'\<close> without
  raising, and the engine (board, turn, history, flags, captured pieces and every other
  field) is the one before the call. The origin column is arbitrary: a column outside
  0..7 reads \<^verbatim>\<open>undefined\<close> and is rejected like an empty square.
\<close>

theorem movePiece_invalid_unchanged:
  assumes "0 \<le> fromRow" and "fromRow \<le> 7"
    and "board s (fromRow, fromCol) = None
         \<or> (\<exists>p. board s (fromRow, fromCol) = Some p \<and> pcolor p \<noteq> turn s)
         \<or> (toRow, toCol) \<notin> set (fst (calculatePossibleMoves s fromRow fromCol))"
  shows "movePiece s fromRow fromCol toRow toCol = Inr (Invalid, s)"
proof -
  obtain legal s1 where c: "calculatePossibleMoves s fromRow fromCol = (legal, s1)"
    by (cases "calculatePossibleMoves s fromRow fromCol")
  have s1: "s1 = s" using calculatePossibleMoves_restores [of s fromRow fromCol] c by simp
  from assms(3) consider
      (empty) "board s (fromRow, fromCol) = None"
    | (wrong) p where "board s (fromRow, fromCol) = Some p" "pcolor p \<noteq> turn s"
    | (dest) p where "board s (fromRow, fromCol) = Some p" "pcolor p = turn s"
        "(toRow, toCol) \<notin> set legal"
    using c by (cases "board s (fromRow, fromCol)") auto
  then show ?thesis
  proof cases
    case empty
    with assms(1,2) show ?thesis by (simp add: movePiece_def)
  next
    case wrong
    with assms(1,2) show ?thesis by (simp add: movePiece_def)
  next
    case dest
    with assms(1,2) c s1 show ?thesis by (simp add: movePiece_def find_None_set)
  qed
qed

theorem movePiece_invalid_unchanged_witness:
  "board epState (4, 4) = None
   \<and> movePiece epState 4 4 5 5 = Inr (Invalid, epState)
   \<and> (\<exists>p. board epState (3, 7) = Some p \<and> pcolor p \<noteq> turn epState)
   \<and> movePiece epState 3 7 3 6 = Inr (Invalid, epState)
   \<and> (5, 5) \<notin> set (fst (calculatePossibleMoves epState 3 1))
   \<and> movePiece epState 3 1 5 5 = Inr (Invalid, epState)"
proof -
  have h1: "board epState (4, 4) = None" by code_simp
  have h2: "\<exists>p. board epState (3, 7) = Some p \<and> pcolor p \<noteq> turn epState"
  proof -
    have "case board epState (3, 7) of None \<Rightarrow> False | Some p \<Rightarrow> pcolor p \<noteq> turn epState"
      by code_simp
    then show ?thesis by (cases "board epState (3, 7)") auto
  qed
  have h3: "(5, 5) \<notin> set (fst (calculatePossibleMoves epState 3 1))" by code_simp
  show ?thesis
    using h1 h2 h3
      movePiece_invalid_unchanged [of 4 epState 4 5 5]
      movePiece_invalid_unchanged [of 3 epState 7 3 6]
      movePiece_invalid_unchanged [of 3 epState 1 5 5]
    by simp
qed

text \<open>
  The claim as stated covers every request with nothing to move at its origin. Nothing
  in \<^verbatim>\<open>movePiece\<close> tests the origin row: for a row outside 0..7,
  \<^verbatim>\<open>this.board[fromRow]\<close> is \<^verbatim>\<open>undefined\<close> and reading its column raises a
  \<^verbatim>\<open>TypeError\<close> instead of returning the sentinel.
\<close>

theorem movePiece_offboard_row_raises:
  "board epState (8, 0) = None \<and> movePiece epState 8 0 7 0 = Inl TypeError
   \<and> board epState (- 1, 0) = None \<and> movePiece epState (- 1) 0 0 0 = Inl TypeError"
proof -
  have "board epState (8, 0) = None" "board epState (- 1, 0) = None" by code_simp+
  then show ?thesis by (simp add: movePiece_def)
qed

section \<open>ChessEngineCore: checkmate and stalemate\<close>

lemma hasNoLegalMoves_loop_fst:
  "fst (hasNoLegalMoves_loop s sqs) \<longleftrightarrow>
     (\<forall>(r, c) \<in> set sqs. \<forall>p. board s (r, c) = Some p \<and> pcolor p = turn s
         \<longrightarrow> fst (calculatePossibleMoves s r c) = [])"
proof (induction sqs)
  case Nil
  show ?case by simp
next
  case (Cons sq sqs)
  obtain row col where sq: "sq = (row, col)" by (cases sq)
  obtain ms s1 where c: "calculatePossibleMoves s row col = (ms, s1)"
    by (cases "calculatePossibleMoves s row col")
  have "s1 = s" using calculatePossibleMoves_restores [of s row col] c by simp
  with sq c Cons.IH show ?case by (auto split: option.splits)
qed

text \<open>
  \<^verbatim>\<open>isCheckmate\<close> and \<^verbatim>\<open>isStalemate\<close> read the stored flag \<^verbatim>\<open>this.check\<close>: the first
  holds exactly when the flag is set and no piece of the side to move has a legal move, the
  second exactly when the flag is clear and no piece of the side to move has a legal move.
\<close>

lemma terminal_by_flag:
  "(fst (isCheckmate s) \<longleftrightarrow>
      check s \<and> (\<forall>(r, c) \<in> set allSquares. \<forall>p. board s (r, c) = Some p \<and> pcolor p = turn s
                   \<longrightarrow> fst (calculatePossibleMoves s r c) = []))
   \<and> (fst (isStalemate s) \<longleftrightarrow>
      \<not> check s \<and> (\<forall>(r, c) \<in> set allSquares. \<forall>p. board s (r, c) = Some p \<and> pcolor p = turn s
                   \<longrightarrow> fst (calculatePossibleMoves s r c) = []))
   \<and> \<not> (fst (isCheckmate s) \<and> fst (isStalemate s))"
  by (simp add: isCheckmate_def isStalemate_def hasNoLegalMoves_def hasNoLegalMoves_loop_fst)

lemma terminal_by_flag_mate:
  "check mateState \<and> fst (isCheckmate mateState) \<and> \<not> fst (isStalemate mateState)"
proof -
  have c: "check mateState" by code_simp
  have "list_all (\<lambda>(r, c). case board mateState (r, c) of
            None \<Rightarrow> True
          | Some p \<Rightarrow> pcolor p \<noteq> turn mateState
                      \<or> fst (calculatePossibleMoves mateState r c) = []) allSquares"
    by code_simp
  then have n: "\<forall>(r, c) \<in> set allSquares. \<forall>p.
      board mateState (r, c) = Some p \<and> pcolor p = turn mateState
        \<longrightarrow> fst (calculatePossibleMoves mateState r c) = []"
    by (auto simp: list_all_iff)
  from c n terminal_by_flag [of mateState] show ?thesis by blast
qed

text \<open>
  The flag is the attack on the king of the side to move whenever \<^verbatim>\<open>movePiece\<close> or
  \<^verbatim>\<open>undoMove\<close> was the last to change the position: both end by recomputing it. In
  such a state the two tests classify by the real check.
\<close>

lemma updateGameState_check:
  "check (updateGameState s md)
     = isKingInCheck (board (updateGameState s md)) (turn (updateGameState s md))"
  by (simp add: updateGameState_pure Let_def)

lemma movePiece_check_current:
  assumes "movePiece s fromRow fromCol toRow toCol = Inr (res, s')" and "res \<noteq> Invalid"
  shows "check s' = isKingInCheck (board s') (turn s')"
proof -
  have c: "calculatePossibleMoves s fromRow fromCol
             = (fst (calculatePossibleMoves s fromRow fromCol), s)"
    using calculatePossibleMoves_restores [of s fromRow fromCol] by (metis prod.collapse)
  from assms obtain s4 md where "s' = updateGameState s4 md"
    unfolding movePiece_def
    by (subst (asm) c) (auto simp: Let_def split: if_splits option.splits sum.splits)
  then show ?thesis by (simp only: updateGameState_check)
qed

lemma undoMove_check_current:
  assumes "undoMove s = (True, s')"
  shows "check s' = isKingInCheck (board s') (turn s')"
  using assms by (auto simp: undoMove_def Let_def split: if_splits)

lemma terminal_when_current:
  assumes "check s = isKingInCheck (board s) (turn s)"
  shows "(fst (isCheckmate s) \<longleftrightarrow>
            isKingInCheck (board s) (turn s) \<and> fst (hasNoLegalMoves s))
         \<and> (fst (isStalemate s) \<longleftrightarrow>
            \<not> isKingInCheck (board s) (turn s) \<and> fst (hasNoLegalMoves s))"
  using assms by (simp add: isCheckmate_def isStalemate_def)

text \<open>
  C5. A side to move that is in check and has no legal move should be classified as
  checkmated, never as stalemated. \<^verbatim>\<open>completePromotion\<close> replaces the pawn and leaves
  \<^verbatim>\<open>this.check\<close> as \<^verbatim>\<open>movePiece\<close> computed it with the pawn still on the last rank.
  With the black king on h8 behind its pawns g7 and h7, White plays a7-a8 and promotes to
  a queen: Black is to move, the king is attacked along the back rank, no black piece has
  a legal move, and yet \<^verbatim>\<open>isCheckmate\<close> is false, \<^verbatim>\<open>isStalemate\<close> is true and
  \<^verbatim>\<open>gameOver\<close> stays false.
\<close>

theorem stale_flag_mate_as_stalemate:
  "case movePiece cornerStart 1 0 0 0 of
     Inl e \<Rightarrow> False
   | Inr (res, s1) \<Rightarrow>
       res = Promotion \<and> \<not> check s1 \<and> \<not> gameOver s1
       \<and> (case completePromotion s1 Queen of
             Inl e \<Rightarrow> False
           | Inr s2 \<Rightarrow>
               turn s2 = Black \<and> isKingInCheck (board s2) Black
               \<and> fst (hasNoLegalMoves s2) \<and> \<not> check s2 \<and> \<not> gameOver s2
               \<and> \<not> fst (isCheckmate s2) \<and> fst (isStalemate s2))"
  by code_simp

section \<open>ChessEngineCore: the history and undo\<close>

lemma handleSpecialMoves_keeps:
  "handleSpecialMoves s p fromRow fromCol toRow toCol = Inr (r, s2)
     \<Longrightarrow> moveHistory s2 = moveHistory s \<and> config s2 = config s"
  by (auto simp: handleSpecialMoves_def executeCastling_def executeEnPassant_def
        regularMove_def Let_def split: if_splits option.splits sum.splits)

lemma movePiece_applied:
  assumes "movePiece s fromRow fromCol toRow toCol = Inr (res, s')" and "res \<noteq> Invalid"
  shows "\<exists>md. boardState md = board s \<and>
           moveHistory s' =
             (if maxMoveHistory (config s) \<noteq> 0
                 \<and> int (length (moveHistory s @ [md])) > maxMoveHistory (config s)
              then tl (moveHistory s @ [md]) else moveHistory s @ [md])"
proof -
  have c: "calculatePossibleMoves s fromRow fromCol
             = (fst (calculatePossibleMoves s fromRow fromCol), s)"
    using calculatePossibleMoves_restores [of s fromRow fromCol] by (metis prod.collapse)
  from assms obtain p where p: "board s (fromRow, fromCol) = Some p"
    by (auto simp: movePiece_def split: if_splits option.splits)
  define md where "md = \<lparr>mfrom = (fromRow, fromCol), mto = (toRow, toCol), mpiece = p,
      captured = board s (toRow, toCol), boardState = board s\<rparr>"
  from assms p obtain r2 s2 where h: "handleSpecialMoves s p fromRow fromCol toRow toCol = Inr (r2, s2)"
    unfolding movePiece_def by (subst (asm) c) (auto simp: Let_def split: if_splits sum.splits)
  from assms p h obtain s4 where s4: "s' = updateGameState s4 md"
      "moveHistory s4 = moveHistory s2" "config s4 = config s2"
    unfolding movePiece_def
    by (subst (asm) c) (auto simp: Let_def md_def split: if_splits option.splits)
  from handleSpecialMoves_keeps [OF h] s4
  have "moveHistory s4 = moveHistory s" "config s4 = config s" by simp_all
  with s4(1) have "moveHistory s' =
             (if maxMoveHistory (config s) \<noteq> 0
                 \<and> int (length (moveHistory s @ [md])) > maxMoveHistory (config s)
              then tl (moveHistory s @ [md]) else moveHistory s @ [md])"
    by (simp add: updateGameState_history)
  moreover have "boardState md = board s" by (simp add: md_def)
  ultimately show ?thesis by blast
qed

lemma undoMove_True:
  assumes "undoMove s = (True, s')"
  shows "moveHistory s \<noteq> [] \<and> board s' = boardState (last (moveHistory s))
         \<and> moveHistory s' = butlast (moveHistory s)"
  using assms by (auto simp: undoMove_def Let_def split: if_splits)

lemma runPairs_invariant:
  "runPairs sc s = Some s' \<Longrightarrow> board s' = board s \<and> suffix (moveHistory s') (moveHistory s)"
proof (induction sc arbitrary: s s')
  case Done
  then show ?case by simp
next
  case (Pair m inner rest)
  obtain fromRow fromCol toRow toCol where m: "m = (fromRow, fromCol, toRow, toCol)"
    by (cases m)
  from Pair.prems m obtain res s1 s2 s3 where
        mp: "movePiece s fromRow fromCol toRow toCol = Inr (res, s1)" "res \<noteq> Invalid"
    and inn: "runPairs inner s1 = Some s2"
    and un: "undoMove s2 = (True, s3)"
    and rst: "runPairs rest s3 = Some s'"
    by (auto split: sum.splits if_splits option.splits prod.splits bool.splits)
  from movePiece_applied [OF mp] obtain md where md: "boardState md = board s"
    and h1: "moveHistory s1 = moveHistory s @ [md] \<or> moveHistory s1 = tl (moveHistory s @ [md])"
    by (auto split: if_splits)
  from Pair.IH(1) [OF inn] have i: "board s2 = board s1" "suffix (moveHistory s2) (moveHistory s1)"
    by simp_all
  from undoMove_True [OF un] have u: "moveHistory s2 \<noteq> []"
      "board s3 = boardState (last (moveHistory s2))" "moveHistory s3 = butlast (moveHistory s2)"
    by simp_all
  from i(2) obtain ys where ys: "moveHistory s1 = ys @ moveHistory s2"
    by (auto simp: suffix_def)
  with u(1) have ne: "moveHistory s1 \<noteq> []" by simp
  have last1: "last (moveHistory s1) = md"
    using h1 ne by (cases "moveHistory s") auto
  have "last (moveHistory s2) = md" using ys u(1) last1 by simp
  with u(2) md have b3: "board s3 = board s" by simp
  have bl: "suffix (butlast (moveHistory s1)) (moveHistory s)"
    using h1 ne by (cases "moveHistory s") (auto simp: suffix_def butlast_append)
  have "butlast (moveHistory s1) = ys @ butlast (moveHistory s2)"
    using ys u(1) by (simp add: butlast_append)
  then have "suffix (moveHistory s3) (butlast (moveHistory s1))"
    using u(3) by (simp add: suffix_def)
  from this bl have s3: "suffix (moveHistory s3) (moveHistory s)" by (rule suffix_order.trans)
  from Pair.IH(2) [OF rst] have "board s' = board s3" "suffix (moveHistory s') (moveHistory s3)"
    by simp_all
  with b3 s3 show ?case by (auto intro: suffix_order.trans)
qed

lemma sys_make_undo:
  assumes "sys_makeMove e mv = Some (e1, orig)"
  shows "sys_undoMove e1 orig mv = Inr e"
proof -
  obtain src dst where mv: "mv = (src, dst)" by (cases mv)
  from assms mv obtain p where p: "board e src = Some p"
    by (auto simp: sys_makeMove_def split: option.splits)
  define b2 where "b2 = (board e)(dst := Some (p\<lparr>hasMoved := True\<rparr>), src := None)"
  from assms mv p have e1: "e1 = e\<lparr>board := b2, turn := opponent (turn e),
        check := isKingInCheck b2 (opponent (turn e))\<rparr>"
    and orig: "orig = \<lparr>opiece = p, ocaptured = board e dst, oturn = turn e,
        olastMove = lastMove e, ocheck = check e\<rparr>"
    by (auto simp: sys_makeMove_def Let_def b2_def)
  define b4 where "b4 = b2(src := Some p, dst := board e dst)"
  have b4: "b4 = board e" using p by (auto simp: b4_def b2_def fun_eq_iff)
  have "sys_undoMove e1 orig mv =
          Inr (e1\<lparr>board := b4(src := Some (p\<lparr>hasMoved := hasMoved p\<rparr>)),
                  turn := turn e, lastMove := lastMove e, check := check e\<rparr>)"
    using p unfolding sys_undoMove_def Let_def mv fst_conv snd_conv e1 orig
    by (simp add: b4_def [symmetric] b4)
  also have "b4(src := Some (p\<lparr>hasMoved := hasMoved p\<rparr>)) = board e"
    using p by (simp add: b4 fun_upd_idem)
  finally show ?thesis by (simp add: e1)
qed

section \<open>ChessEngineCore: where the generator and the promotion step go wrong\<close>

text \<open>
  C1. Every move returned by \<^verbatim>\<open>calculatePossibleMoves\<close> should leave the mover's king
  unattacked once applied. The filter tries each move with \<^verbatim>\<open>wouldBeInCheck\<close>, which
  moves the piece and nothing else, so the pawn taken en passant still stands on the board
  during the test. Here Black plays c7-c5; the generator then offers White the capture
  b5xc6 en passant, and applying it with \<^verbatim>\<open>movePiece\<close> removes both pawns from the fifth
  rank and leaves the white king on a5 attacked by the rook on h5.
\<close>

theorem enPassant_exposes_king:
  "case movePiece epStart 1 2 3 2 of
     Inl e \<Rightarrow> False
   | Inr (r0, s0) \<Rightarrow>
       r0 = Valid \<and> turn s0 = White \<and> \<not> isKingInCheck (board s0) White
       \<and> (2, 2) \<in> set (fst (calculatePossibleMoves s0 3 1))
       \<and> (case movePiece s0 3 1 2 2 of
             Inl e \<Rightarrow> False
           | Inr (r1, s1) \<Rightarrow> r1 = Valid \<and> isKingInCheck (board s1) White)"
  by code_simp

text \<open>
  C4. A pawn reaching the last rank should hold the turn until \<^verbatim>\<open>completePromotion\<close>
  is called. \<^verbatim>\<open>ChessEngineCore.movePiece\<close> records the pending promotion and returns
  \<^verbatim>\<open>'promotion'\<close>, but has flipped the turn already, and \<^verbatim>\<open>completePromotion\<close> neither
  flips it nor recomputes the check flag: after a7-a8 and the promotion to a queen it is
  Black's move, the black king on e8 is attacked along the back rank, and the check flag
  is still clear. \<^verbatim>\<open>ChessEngine\<close>, in the same position, holds the turn until the
  promotion is completed and then reports the check.
\<close>

theorem promotion_turn_advances:
  "case movePiece promoState 1 0 0 0 of
     Inl e \<Rightarrow> False
   | Inr (res, s1) \<Rightarrow>
       res = Promotion \<and> promotingPawn s1 = Some (0, 0)
       \<and> turn promoState = White \<and> turn s1 = Black
       \<and> (case completePromotion s1 Queen of
             Inl e \<Rightarrow> False
           | Inr s2 \<Rightarrow> turn s2 = Black \<and> \<not> check s2 \<and> isKingInCheck (board s2) Black)"
  by code_simp

section \<open>StockfishLikeEngine: the legality test leaves the board as it found it\<close>

lemma isMoveLegal_restores: "snd (isMoveLegal b m col0) = b"
  by (auto simp: isMoveLegal_def Let_def fun_eq_iff)

lemma legalOf_pure [code]:
  "legalOf b col0 p sq ts =
     (filter (\<lambda>m. fst (isMoveLegal b m col0))
        (map (\<lambda>t. \<lparr>sfrom = sq, sto = t, spiece = p\<rparr>) ts), b)"
proof (induction ts)
  case Nil
  show ?case by simp
next
  case (Cons t ts)
  define m where "m = \<lparr>sfrom = sq, sto = t, spiece = p\<rparr>"
  obtain ok where ok: "isMoveLegal b m col0 = (ok, b)"
    using isMoveLegal_restores [of b m col0] by (cases "isMoveLegal b m col0") auto
  then show ?case using Cons.IH by (simp add: m_def [symmetric] Let_def)
qed

lemma generateAllLegalMoves_loop_restores: "snd (generateAllLegalMoves_loop b col0 sqs) = b"
proof (induction sqs)
  case Nil
  show ?case by simp
next
  case (Cons sq sqs)
  obtain r c where sq: "sq = (r, c)" by (cases sq)
  show ?case using Cons.IH
    by (simp add: sq legalOf_pure Let_def split_beta split: option.splits)
qed

lemma generateAllLegalMoves_loop_pure [code]:
  "generateAllLegalMoves_loop b col0 [] = ([], b)"
  "generateAllLegalMoves_loop b col0 ((r, c) # sqs) =
     (case b (r, c) of
        None \<Rightarrow> generateAllLegalMoves_loop b col0 sqs
      | Some p \<Rightarrow>
          if pcolor p = col0 then
            (fst (legalOf b col0 p (r, c) (calculatePossibleMoves_sf b r c))
               @ fst (generateAllLegalMoves_loop b col0 sqs), b)
          else generateAllLegalMoves_loop b col0 sqs)"
  using generateAllLegalMoves_loop_restores [of b col0 sqs]
  by (simp_all add: legalOf_pure Let_def split_beta split: option.splits)

lemma generateAllLegalMoves_restores: "snd (generateAllLegalMoves b col0) = b"
  by (simp add: generateAllLegalMoves_def generateAllLegalMoves_loop_restores)

section \<open>StockfishLikeEngine: the leaf without legal moves\<close>

text \<open>
  C6, as the code has it. At a node of \<^verbatim>\<open>search\<close> with remaining depth at least 1 where
  the side to move has no legal move, the search returns: when that side's king is in
  check, the negative mate score \<open>-9999 + (4 - depth)\<close>, of magnitude at least 9000, and
  a mate found with more remaining depth (closer to the root, so faster) gets the more
  negative score for the mated side; when the king is not in check, exactly 0.
\<close>

theorem search_zero_move_leaf:
  assumes "1 \<le> depth" and "fst (generateAllLegalMoves b col0) = []"
  shows "\<exists>v. search (Suc n) b col0 depth alpha beta = Some (Num v, b)
           \<and> (if isKingInCheck_sf b col0
               then v = -9999 + (4 - depth) \<and> v < 0 \<and> 9000 \<le> \<bar>v\<bar>
                    \<and> (\<forall>n' b' col' depth' alpha' beta'.
                          depth < depth' \<and> fst (generateAllLegalMoves b' col') = []
                          \<and> isKingInCheck_sf b' col'
                          \<longrightarrow> (\<exists>v'. search (Suc n') b' col' depth' alpha' beta' = Some (Num v', b')
                                  \<and> v' < v))
               else v = 0)"
  using assms by (auto simp: generateAllLegalMoves_restores)

theorem search_zero_move_leaf_witness:
  "fst (generateAllLegalMoves sfMateBoard Black) = []
   \<and> isKingInCheck_sf sfMateBoard Black
   \<and> search 1 sfMateBoard Black 3 NegInf PosInf = Some (Num (- 9998), sfMateBoard)
   \<and> fst (generateAllLegalMoves sfStaleBoard Black) = []
   \<and> \<not> isKingInCheck_sf sfStaleBoard Black
   \<and> search 1 sfStaleBoard Black 3 NegInf PosInf = Some (Num 0, sfStaleBoard)"
proof -
  have "case fst (generateAllLegalMoves sfMateBoard Black) of [] \<Rightarrow> True | m # ms \<Rightarrow> False"
    by code_simp
  then have m: "fst (generateAllLegalMoves sfMateBoard Black) = []"
    by (simp split: list.splits)
  have mc: "isKingInCheck_sf sfMateBoard Black" by code_simp
  have "case fst (generateAllLegalMoves sfStaleBoard Black) of [] \<Rightarrow> True | m # ms \<Rightarrow> False"
    by code_simp
  then have s: "fst (generateAllLegalMoves sfStaleBoard Black) = []"
    by (simp split: list.splits)
  have sc: "\<not> isKingInCheck_sf sfStaleBoard Black" by code_simp
  have d: "(1::int) \<le> 3" by simp
  from search_zero_move_leaf [OF d m, of 0 NegInf PosInf] mc
  have r1: "search 1 sfMateBoard Black 3 NegInf PosInf = Some (Num (- 9998), sfMateBoard)"
    by (auto simp del: search.simps)
  from search_zero_move_leaf [OF d s, of 0 NegInf PosInf] sc
  have r2: "search 1 sfStaleBoard Black 3 NegInf PosInf = Some (Num 0, sfStaleBoard)"
    by (auto simp del: search.simps)
  from m mc r1 s sc r2 show ?thesis by blast
qed

text \<open>
  The claim as stated covers every node. \<^verbatim>\<open>search\<close> tests \<^verbatim>\<open>depth === 0\<close> before it
  generates any move, so a node at the horizon returns the value of the quiescence search
  whether or not the side to move has a move: in the stalemate position, where Black has
  no legal move and is not in check, the search at depth 0 returns -1190, not 0.
\<close>

theorem search_horizon_not_zero:
  "map_option fst (search 1 sfStaleBoard Black 0 NegInf PosInf) = Some (Num (- 1190))"
  by code_simp

section \<open>StockfishLikeEngine: move ordering\<close>

text \<open>
  C7. \<^verbatim>\<open>orderMoves\<close> should place every capture before every non-capture. It scores a
  capture by victim value minus attacker value and a non-capture by 0, so a capture that
  loses material sorts behind the quiet moves: with the queen on d4 and a pawn on d5, the
  ordered list of White's legal moves starts with a quiet move and ends with the capture
  Qxd5 (score 100 - 900).
\<close>

theorem orderMoves_capture_last:
  "(let ms = orderMoves sfBoard (fst (generateAllLegalMoves sfBoard White))
    in 1 < length ms
       \<and> (case sfBoard (sto (hd ms)) of None \<Rightarrow> True | Some p \<Rightarrow> False)
       \<and> (case sfBoard (sto (last ms)) of None \<Rightarrow> False | Some p \<Rightarrow> True))"
  by code_simp

text \<open>
  What the sort does give: the moves are a rearrangement of the input in descending order
  of score, so the captures are in descending order of victim value minus attacker value
  among themselves.
\<close>

lemma orderMoves_sorted:
  "sorted (map (\<lambda>m. - moveScore b m) (orderMoves b ms)) \<and> mset (orderMoves b ms) = mset ms"
  by (simp add: orderMoves_def)

section \<open>ChessEngine: the pending promotion holds the turn\<close>

text \<open>
  The engine of the game page does what \<^verbatim>\<open>ChessEngineCore\<close> misses: a pawn that reaches
  its last rank leaves the turn, the check flag and the game-over flag as they were and
  sets the pending square; \<^verbatim>\<open>completePromotion\<close> then replaces the type, flips the turn
  and recomputes the status.
\<close>

lemma filterMoves_ce_restores: "snd (filterMoves_ce b row col col0 ms) = b"
proof (induction ms)
  case Nil
  show ?case by simp
next
  case (Cons m ms)
  obtain tr tc where m: "m = (tr, tc)" by (cases m)
  have undo: "b((tr, tc) := b (row, col), (row, col) := None,
                (row, col) := (b((tr, tc) := b (row, col), (row, col) := None)) (tr, tc),
                (tr, tc) := b (tr, tc)) = b"
    by (auto simp: fun_eq_iff)
  obtain rest b5 where f: "filterMoves_ce b row col col0 ms = (rest, b5)"
    by (cases "filterMoves_ce b row col col0 ms")
  with Cons.IH have "b5 = b" by simp
  with m f undo show ?case by (simp add: Let_def)
qed

lemma calculatePossibleMoves_ce_restores: "snd (calculatePossibleMoves_ce s row col) = s"
proof (cases "ce_board s (row, col)")
  case None
  then show ?thesis by (simp add: calculatePossibleMoves_ce_def)
next
  case (Some p)
  define ms where "ms = pseudoLegalMoves_ce (ce_board s) (ce_lastMove s) p row col"
  obtain legal b' where f: "filterMoves_ce (ce_board s) row col (pcolor p) ms = (legal, b')"
    by (cases "filterMoves_ce (ce_board s) row col (pcolor p) ms")
  have "b' = ce_board s"
    using filterMoves_ce_restores [of "ce_board s" row col "pcolor p" ms] f by simp
  with Some f show ?thesis by (simp add: calculatePossibleMoves_ce_def ms_def)
qed

lemma hasLegalMoves_ce_restores: "snd (hasLegalMoves_ce s sqs) = s"
proof (induction sqs)
  case Nil
  show ?case by simp
next
  case (Cons sq sqs)
  obtain r c where sq: "sq = (r, c)" by (cases sq)
  obtain ms s1 where c: "calculatePossibleMoves_ce s r c = (ms, s1)"
    by (cases "calculatePossibleMoves_ce s r c")
  have "s1 = s" using calculatePossibleMoves_ce_restores [of s r c] c by simp
  with sq c Cons.IH show ?case by (simp split: option.splits)
qed

lemma checkGameStatus_fields:
  "ce_turn (snd (checkGameStatus s)) = ce_turn s"
  "ce_board (snd (checkGameStatus s)) = ce_board s"
  "ce_promotingPawn (snd (checkGameStatus s)) = ce_promotingPawn s"
  "ce_check (snd (checkGameStatus s)) = isKingInCheck_ce (ce_board s) (ce_turn s)"
proof -
  define s1 where "s1 = s\<lparr>ce_checksGiven :=
      (if isKingInCheck_ce (ce_board s) (ce_turn s) then ce_checksGiven s + 1 else ce_checksGiven s),
      ce_check := isKingInCheck_ce (ce_board s) (ce_turn s)\<rparr>"
  obtain h where h: "hasLegalMoves_ce s1 allSquares = (h, s1)"
    using hasLegalMoves_ce_restores [of s1 allSquares]
    by (cases "hasLegalMoves_ce s1 allSquares") auto
  have cs: "snd (checkGameStatus s) = (if \<not> h then s1\<lparr>ce_gameOver := True\<rparr> else s1)"
    unfolding checkGameStatus_def Let_def s1_def [symmetric] h by simp
  show "ce_turn (snd (checkGameStatus s)) = ce_turn s"
    "ce_board (snd (checkGameStatus s)) = ce_board s"
    "ce_promotingPawn (snd (checkGameStatus s)) = ce_promotingPawn s"
    "ce_check (snd (checkGameStatus s)) = isKingInCheck_ce (ce_board s) (ce_turn s)"
    unfolding cs by (simp_all add: s1_def)
qed

lemma movePiece_ce_promotion:
  assumes "movePiece_ce s fromRow fromCol toRow toCol = Inr (ReturnedPromotion, s')"
  shows "ce_turn s' = ce_turn s \<and> ce_promotingPawn s' = Some (toRow, toCol)
         \<and> ce_check s' = ce_check s \<and> ce_gameOver s' = ce_gameOver s"
  using assms
  by (auto simp: movePiece_ce_def Let_def split: if_splits option.splits)

lemma movePiece_ce_last_rank:
  assumes "0 \<le> fromRow" "fromRow \<le> 7" "0 \<le> fromCol" "fromCol \<le> 7" "0 \<le> toRow" "toRow \<le> 7"
    and "ce_board s (fromRow, fromCol) = Some p" and "ptype p = Pawn"
    and "(pcolor p = White \<and> toRow = 0) \<or> (pcolor p = Black \<and> toRow = 7)"
  shows "\<exists>s'. movePiece_ce s fromRow fromCol toRow toCol = Inr (ReturnedPromotion, s')"
  using assms
  by (auto simp: movePiece_ce_def Let_def split: if_splits option.splits)

lemma completePromotion_ce_pending:
  assumes "ce_promotingPawn s = Some (row, col)" and "ce_board s (row, col) = Some p"
  shows "\<exists>s'. completePromotion_ce s pieceType = Inr s'
           \<and> ce_turn s' = opponent (ce_turn s)
           \<and> ce_promotingPawn s' = None
           \<and> ce_board s' = (ce_board s)((row, col) := Some (p\<lparr>ptype := pieceType\<rparr>))
           \<and> ce_check s' = isKingInCheck_ce (ce_board s') (ce_turn s')"
  using assms
  by (cases "ce_turn s")
     (simp_all add: completePromotion_ce_def checkGameStatus_fields switchTurns_def)

lemma chessEngine_promotion_example:
  "case movePiece_ce promoState_ce 1 0 0 0 of
     Inl e \<Rightarrow> False
   | Inr (res, s1) \<Rightarrow>
       res = ReturnedPromotion \<and> ce_promotingPawn s1 = Some (0, 0)
       \<and> ce_turn promoState_ce = White \<and> ce_turn s1 = White
       \<and> (case completePromotion_ce s1 Queen of
             Inl e \<Rightarrow> False
           | Inr s2 \<Rightarrow> ce_turn s2 = Black \<and> ce_check s2 \<and> ce_promotingPawn s2 = None)"
  by code_simp

lemma completePromotion_ce_not_pending:
  "ce_promotingPawn s = None \<Longrightarrow> completePromotion_ce s pieceType = Inr s"
  by (simp add: completePromotion_ce_def)

section \<open>completePromotion without a pending promotion\<close>

text \<open>
  C10. \<^verbatim>\<open>completePromotion\<close> called while no promotion is pending returns at once and
  leaves the whole engine as it was: no piece is replaced, the turn is not flipped, and the
  check and game-over flags keep their values. This holds for \<^verbatim>\<open>ChessEngineCore\<close> and
  for \<^verbatim>\<open>ChessEngine\<close>.
\<close>

theorem completePromotion_not_pending:
  "(promotingPawn s = None \<longrightarrow> completePromotion s pieceType = Inr s)
   \<and> (ce_promotingPawn c = None \<longrightarrow> completePromotion_ce c pieceType = Inr c)"
  by (simp add: completePromotion_def completePromotion_ce_not_pending)

theorem completePromotion_not_pending_witness:
  "promotingPawn epState = None \<and> completePromotion epState Queen = Inr epState
   \<and> ce_promotingPawn promoState_ce = None
   \<and> completePromotion_ce promoState_ce Queen = Inr promoState_ce"
proof -
  have h: "promotingPawn epState = None" by code_simp
  have k: "ce_promotingPawn promoState_ce = None" by code_simp
  from h k completePromotion_not_pending [of epState Queen promoState_ce] show ?thesis by simp
qed

section \<open>ChessEngineSystem: the search leaves the engine as it found it\<close>

lemma getAllPossibleMoves_loop_restores: "snd (getAllPossibleMoves_loop e col0 sqs) = e"
proof (induction sqs)
  case Nil
  show ?case by simp
next
  case (Cons sq sqs)
  obtain r c where sq: "sq = (r, c)" by (cases sq)
  obtain ts where ts: "calculatePossibleMoves e r c = (ts, e)"
    using calculatePossibleMoves_restores [of e r c] by (cases "calculatePossibleMoves e r c") auto
  show ?case using Cons.IH
    by (simp add: sq ts Let_def split_beta split: option.splits)
qed

lemma getAllPossibleMoves_loop_pure [code]:
  "getAllPossibleMoves_loop e col0 [] = ([], e)"
  "getAllPossibleMoves_loop e col0 ((row, col) # sqs) =
     (case board e (row, col) of
        None \<Rightarrow> getAllPossibleMoves_loop e col0 sqs
      | Some p \<Rightarrow>
          if pcolor p = col0 then
            (map (\<lambda>t. ((row, col), t)) (fst (calculatePossibleMoves e row col))
               @ fst (getAllPossibleMoves_loop e col0 sqs), e)
          else getAllPossibleMoves_loop e col0 sqs)"
proof -
  obtain ts where ts: "calculatePossibleMoves e row col = (ts, e)"
    using calculatePossibleMoves_restores [of e row col]
    by (cases "calculatePossibleMoves e row col") auto
  show "getAllPossibleMoves_loop e col0 [] = ([], e)" by simp
  show "getAllPossibleMoves_loop e col0 ((row, col) # sqs) =
     (case board e (row, col) of
        None \<Rightarrow> getAllPossibleMoves_loop e col0 sqs
      | Some p \<Rightarrow>
          if pcolor p = col0 then
            (map (\<lambda>t. ((row, col), t)) (fst (calculatePossibleMoves e row col))
               @ fst (getAllPossibleMoves_loop e col0 sqs), e)
          else getAllPossibleMoves_loop e col0 sqs)"
    using getAllPossibleMoves_loop_restores [of e col0 sqs]
    by (simp add: ts Let_def split_beta split: option.splits)
qed

lemma getAllPossibleMoves_restores: "snd (getAllPossibleMoves e col0) = e"
  by (simp add: getAllPossibleMoves_def getAllPossibleMoves_loop_restores)

lemma getAllPossibleMoves_loop_origin:
  "m \<in> set (fst (getAllPossibleMoves_loop e col0 sqs)) \<Longrightarrow> board e (fst m) \<noteq> None"
proof (induction sqs)
  case Nil
  then show ?case by simp
next
  case (Cons sq sqs)
  obtain r c where sq: "sq = (r, c)" by (cases sq)
  from Cons show ?case
    by (auto simp: sq getAllPossibleMoves_loop_pure(2) simp del: getAllPossibleMoves_loop.simps
          split: option.splits if_splits)
qed

lemma getAllPossibleMoves_origin:
  "m \<in> set (fst (getAllPossibleMoves e col0)) \<Longrightarrow> board e (fst m) \<noteq> None"
  unfolding getAllPossibleMoves_def by (rule getAllPossibleMoves_loop_origin)

lemma sys_makeMove_Some: "board e (fst m) \<noteq> None \<Longrightarrow> sys_makeMove e m \<noteq> None"
  by (auto simp: sys_makeMove_def Let_def split: option.splits)

lemma minimax_restores:
  "minimax n ev e depth isMax alpha beta = Inr (v, e') \<Longrightarrow> e' = e"
  "minimaxLoop n ev e depth isMax best alpha beta ms = Inr (v, e') \<Longrightarrow> e' = e"
proof (induction n ev e depth isMax alpha beta and n ev e depth isMax best alpha beta ms
       arbitrary: v e' and v e' rule: minimax_minimaxLoop.induct)
  case (1 ev e depth isMaximizing alpha beta)
  then show ?case by simp
next
  case (2 n ev e depth isMaximizing alpha beta)
  show ?case
  proof (cases "depth = 0 \<or> gameOver e")
    case True
    with "2.prems" show ?thesis by auto
  next
    case False
    with "2.prems" "2.IH" [OF False refl refl refl] show ?thesis
      by (simp add: Let_def getAllPossibleMoves_restores)
  qed
next
  case (3 n ev e depth isMaximizing best alpha beta)
  then show ?case by simp
next
  case (4 n ev e depth isMaximizing best alpha beta m ms)
  show ?case
  proof (cases "sys_makeMove e m")
    case None
    with "4.prems" "4.IH"(1) show ?thesis by simp
  next
    case (Some x)
    obtain e1 orig where x: "x = (e1, orig)" by (cases x)
    from "4.prems" Some x obtain evaluation e2 where
      mm: "minimax n ev e1 (depth - 1) (\<not> isMaximizing) alpha beta = Inr (evaluation, e2)"
      by (auto split: sum.splits)
    from "4.IH"(2) [OF Some x [symmetric] mm] have e2: "e2 = e1" .
    from Some x have un: "sys_undoMove e1 orig m = Inr e" by (simp add: sys_make_undo)
    show ?thesis
    proof (cases isMaximizing)
      case True
      show ?thesis
      proof (cases "beta \<le> max alpha evaluation")
        case c: True
        with "4.prems" Some x mm e2 un True show ?thesis by (simp add: Let_def)
      next
        case c: False
        from "4.prems" Some x mm e2 un True c
        have "minimaxLoop n ev e depth isMaximizing (max best evaluation) (max alpha evaluation) beta ms
                = Inr (v, e')" by (simp add: Let_def)
        with "4.IH"(3) [OF Some x [symmetric] mm refl _ True refl refl c] un e2
        show ?thesis by simp
      qed
    next
      case False
      show ?thesis
      proof (cases "min beta evaluation \<le> alpha")
        case c: True
        with "4.prems" Some x mm e2 un False show ?thesis by (simp add: Let_def)
      next
        case c: False
        from "4.prems" Some x mm e2 un False c
        have "minimaxLoop n ev e depth isMaximizing (min best evaluation) alpha (min beta evaluation) ms
                = Inr (v, e')" by (simp add: Let_def)
        with "4.IH"(4) [OF Some x [symmetric] mm refl _ False refl refl c] un e2
        show ?thesis by simp
      qed
    qed
  qed
qed


lemma shuffleFrom_mset: "i < length xs \<Longrightarrow> mset (shuffleFrom i js xs) = mset xs"
proof (induction i js xs rule: shuffleFrom.induct)
  case (1 js xs)
  show ?case by simp
next
  case (2 i xs)
  show ?case by simp
next
  case (3 i j js xs)
  show ?case
  proof (cases "j \<le> Suc i")
    case True
    with "3.prems" have lt: "Suc i < length xs" "j < length xs" by auto
    then have "mset (xs[Suc i := xs ! j, j := xs ! Suc i]) = mset xs"
      by (simp add: mset_swap)
    moreover have "mset (shuffleFrom i js (xs[Suc i := xs ! j, j := xs ! Suc i]))
                     = mset (xs[Suc i := xs ! j, j := xs ! Suc i])"
      using "3.IH" lt True by simp
    ultimately show ?thesis using True by simp
  next
    case False
    with "3.IH" "3.prems" show ?thesis by simp
  qed
qed

lemma shuffleArray_mset: "mset (shuffleArray js xs) = mset xs"
proof (cases xs)
  case Nil
  then show ?thesis by (simp add: shuffleArray_def)
next
  case (Cons x ys)
  then show ?thesis unfolding shuffleArray_def by (intro shuffleFrom_mset) simp
qed

lemma better_max_min: "better isMax = (if isMax then max else min)"
  by (auto simp: better_def fun_eq_iff max_def min_def)

lemma bestMoveLoop_char:
  assumes "bestMoveLoop n ev e depth isMax bm bs ms = Inr (bm', bs', e')"
  shows "e' = e
     \<and> bs' = fold (better isMax) (List.map_filter (rootScore n ev e depth isMax) ms) bs
     \<and> (\<forall>m \<in> set ms. sys_makeMove e m \<noteq> None \<longrightarrow> rootScore n ev e depth isMax m \<noteq> None)
     \<and> ((bm' = bm \<and> bs' = bs)
         \<or> (\<exists>m \<in> set ms. bm' = Some m \<and> rootScore n ev e depth isMax m = Some bs'))"
  using assms
proof (induction ms arbitrary: bm bs)
  case Nil
  then show ?case by (simp add: List.map_filter_simps)
next
  case (Cons m ms)
  show ?case
  proof (cases "sys_makeMove e m")
    case None
    then have rs: "rootScore n ev e depth isMax m = None" by (simp add: rootScore_def)
    from Cons.prems None have "bestMoveLoop n ev e depth isMax bm bs ms = Inr (bm', bs', e')"
      by simp
    from Cons.IH [OF this] rs None show ?thesis
      by (auto simp: List.map_filter_simps)
  next
    case (Some x)
    obtain e1 orig where x: "x = (e1, orig)" by (cases x)
    from Cons.prems Some x obtain score e2 where
      mm: "minimax n ev e1 (depth - 1) (\<not> isMax) NegInf PosInf = Inr (score, e2)"
      by (auto split: sum.splits)
    from minimax_restores(1) [OF mm] have e2: "e2 = e1" .
    from Some x have un: "sys_undoMove e1 orig m = Inr e" by (simp add: sys_make_undo)
    from Some x mm have rs: "rootScore n ev e depth isMax m = Some score"
      by (simp add: rootScore_def)
    show ?thesis
    proof (cases "if isMax then score > bs else score < bs")
      case True
      with Cons.prems Some x mm e2 un
      have "bestMoveLoop n ev e depth isMax (Some m) score ms = Inr (bm', bs', e')"
        by (cases isMax) simp_all
      from Cons.IH [OF this] have ih: "e' = e"
        "bs' = fold (better isMax)
                 (List.map_filter (rootScore n ev e depth isMax) ms) score"
        "\<forall>m \<in> set ms. sys_makeMove e m \<noteq> None \<longrightarrow> rootScore n ev e depth isMax m \<noteq> None"
        "(bm' = Some m \<and> bs' = score)
         \<or> (\<exists>m \<in> set ms. bm' = Some m \<and> rootScore n ev e depth isMax m = Some bs')"
        by blast+
      have acc: "better isMax score bs = score"
        using True by (simp add: better_def)
      from ih(4) rs have "\<exists>m' \<in> set (m # ms). bm' = Some m' \<and> rootScore n ev e depth isMax m' = Some bs'"
        by auto
      with ih(1,2,3) rs acc show ?thesis
        by (simp add: List.map_filter_simps)
    next
      case False
      with Cons.prems Some x mm e2 un
      have "bestMoveLoop n ev e depth isMax bm bs ms = Inr (bm', bs', e')"
        by (cases isMax) simp_all
      from Cons.IH [OF this] have ih: "e' = e"
        "bs' = fold (better isMax)
                 (List.map_filter (rootScore n ev e depth isMax) ms) bs"
        "\<forall>m \<in> set ms. sys_makeMove e m \<noteq> None \<longrightarrow> rootScore n ev e depth isMax m \<noteq> None"
        "(bm' = bm \<and> bs' = bs)
         \<or> (\<exists>m \<in> set ms. bm' = Some m \<and> rootScore n ev e depth isMax m = Some bs')"
        by blast+
      have acc: "better isMax score bs = bs"
        using False by (simp add: better_def)
      from ih(4) have "(bm' = bm \<and> bs' = bs)
         \<or> (\<exists>m' \<in> set (m # ms). bm' = Some m' \<and> rootScore n ev e depth isMax m' = Some bs')"
        by auto
      with ih(1,2,3) rs acc show ?thesis
        by (simp add: List.map_filter_simps)
    qed
  qed
qed

lemma fold_max_set: "fold max vs (b::num) = Max (set (b # vs))"
  by (rule Max.set_eq_fold [symmetric])

lemma fold_min_set: "fold min vs (b::num) = Min (set (b # vs))"
  by (rule Min.set_eq_fold [symmetric])

lemma fold_best_perm:
  assumes "set vs = set ws"
  shows "fold (better isMax) vs b = fold (better isMax) ws b"
  using assms by (cases isMax) (simp_all add: better_max_min fold_max_set fold_min_set)

lemma set_map_filter: "set (List.map_filter f xs) = {v. \<exists>x \<in> set xs. f x = Some v}"
  by (induction xs) (auto simp: List.map_filter_simps split: option.splits)

lemma minimaxLoop_code [code]:
  "minimaxLoop n ev e depth isMaximizing best alpha beta [] = Inr (best, e)"
  "minimaxLoop n ev e depth isMaximizing best alpha beta (m # ms) =
     (case sys_makeMove e m of
        None \<Rightarrow> minimaxLoop n ev e depth isMaximizing best alpha beta ms
      | Some (e1, orig) \<Rightarrow>
          (case minimax n ev e1 (depth - 1) (\<not> isMaximizing) alpha beta of
             Inl x \<Rightarrow> Inl x
           | Inr (evaluation, e2) \<Rightarrow>
               if isMaximizing then
                 (let maxEval = max best evaluation;
                      alpha' = max alpha evaluation
                  in if beta \<le> alpha' then Inr (maxEval, e)
                     else minimaxLoop n ev e depth isMaximizing maxEval alpha' beta ms)
               else
                 (let minEval = min best evaluation;
                      beta' = min beta evaluation
                  in if beta' \<le> alpha then Inr (minEval, e)
                     else minimaxLoop n ev e depth isMaximizing minEval alpha beta' ms)))"
proof -
  show "minimaxLoop n ev e depth isMaximizing best alpha beta [] = Inr (best, e)" by simp
  show "minimaxLoop n ev e depth isMaximizing best alpha beta (m # ms) =
     (case sys_makeMove e m of
        None \<Rightarrow> minimaxLoop n ev e depth isMaximizing best alpha beta ms
      | Some (e1, orig) \<Rightarrow>
          (case minimax n ev e1 (depth - 1) (\<not> isMaximizing) alpha beta of
             Inl x \<Rightarrow> Inl x
           | Inr (evaluation, e2) \<Rightarrow>
               if isMaximizing then
                 (let maxEval = max best evaluation;
                      alpha' = max alpha evaluation
                  in if beta \<le> alpha' then Inr (maxEval, e)
                     else minimaxLoop n ev e depth isMaximizing maxEval alpha' beta ms)
               else
                 (let minEval = min best evaluation;
                      beta' = min beta evaluation
                  in if beta' \<le> alpha then Inr (minEval, e)
                     else minimaxLoop n ev e depth isMaximizing minEval alpha beta' ms)))"
  proof (cases "sys_makeMove e m")
    case None
    then show ?thesis by simp
  next
    case (Some x)
    obtain e1 orig where x: "x = (e1, orig)" by (cases x)
    from Some x have un: "sys_undoMove e1 orig m = Inr e" by (simp add: sys_make_undo)
    show ?thesis
    proof (cases "minimax n ev e1 (depth - 1) (\<not> isMaximizing) alpha beta")
      case (Inl a)
      with Some x show ?thesis by simp
    next
      case (Inr r)
      obtain evaluation e2 where r: "r = (evaluation, e2)" by (cases r)
      from minimax_restores(1) Inr r have "e2 = e1" by blast
      with Some x Inr r un show ?thesis by (simp add: Let_def)
    qed
  qed
qed

lemma bestMoveLoop_code [code]:
  "bestMoveLoop n ev e depth isMaximizing bestMove bestScore [] = Inr (bestMove, bestScore, e)"
  "bestMoveLoop n ev e depth isMaximizing bestMove bestScore (m # ms) =
     (case sys_makeMove e m of
        None \<Rightarrow> bestMoveLoop n ev e depth isMaximizing bestMove bestScore ms
      | Some (e1, orig) \<Rightarrow>
          (case minimax n ev e1 (depth - 1) (\<not> isMaximizing) NegInf PosInf of
             Inl x \<Rightarrow> Inl x
           | Inr (score, e2) \<Rightarrow>
               if (if isMaximizing then score > bestScore else score < bestScore)
               then bestMoveLoop n ev e depth isMaximizing (Some m) score ms
               else bestMoveLoop n ev e depth isMaximizing bestMove bestScore ms))"
proof -
  show "bestMoveLoop n ev e depth isMaximizing bestMove bestScore [] = Inr (bestMove, bestScore, e)"
    by simp
  show "bestMoveLoop n ev e depth isMaximizing bestMove bestScore (m # ms) =
     (case sys_makeMove e m of
        None \<Rightarrow> bestMoveLoop n ev e depth isMaximizing bestMove bestScore ms
      | Some (e1, orig) \<Rightarrow>
          (case minimax n ev e1 (depth - 1) (\<not> isMaximizing) NegInf PosInf of
             Inl x \<Rightarrow> Inl x
           | Inr (score, e2) \<Rightarrow>
               if (if isMaximizing then score > bestScore else score < bestScore)
               then bestMoveLoop n ev e depth isMaximizing (Some m) score ms
               else bestMoveLoop n ev e depth isMaximizing bestMove bestScore ms))"
  proof (cases "sys_makeMove e m")
    case None
    then show ?thesis by simp
  next
    case (Some x)
    obtain e1 orig where x: "x = (e1, orig)" by (cases x)
    from Some x have un: "sys_undoMove e1 orig m = Inr e" by (simp add: sys_make_undo)
    show ?thesis
    proof (cases "minimax n ev e1 (depth - 1) (\<not> isMaximizing) NegInf PosInf")
      case (Inl a)
      with Some x show ?thesis by simp
    next
      case (Inr r)
      obtain score e2 where r: "r = (score, e2)" by (cases r)
      from minimax_restores(1) Inr r have "e2 = e1" by blast
      with Some x Inr r un show ?thesis by simp
    qed
  qed
qed

lemma NegInf_least: "(v::num) \<le> NegInf \<Longrightarrow> v = NegInf"
  by (cases v) (simp_all add: less_eq_num_def)

lemma PosInf_greatest: "PosInf \<le> (v::num) \<Longrightarrow> v = PosInf"
  by (cases v) (simp_all add: less_eq_num_def)

lemma fold_better_bound:
  assumes "v \<in> set vs"
  shows "if isMax then v \<le> fold (better isMax) vs b else fold (better isMax) vs b \<le> v"
proof (cases isMax)
  case True
  have "v \<le> Max (set (b # vs))" using assms by (intro Max_ge) auto
  with True show ?thesis by (simp add: better_max_min fold_max_set del: set_simps)
next
  case False
  have "Min (set (b # vs)) \<le> v" using assms by (intro Min_le) auto
  with False show ?thesis by (simp add: better_max_min fold_min_set del: set_simps)
qed

lemma getBestMoveMinMax_char:
  assumes r: "getBestMoveMinMax n ev js e col0 depth = Inr (mv, bs, e')"
  shows "e' = e
     \<and> bs = fold (better (col0 = White))
              (List.map_filter (rootScore n ev e depth (col0 = White))
                 (shuffleArray js (fst (getAllPossibleMoves e col0))))
              (if col0 = White then NegInf else PosInf)
     \<and> (\<forall>m. mv = Some m \<longrightarrow>
           m \<in> set (fst (getAllPossibleMoves e col0))
           \<and> rootScore n ev e depth (col0 = White) m = Some bs)"
proof -
  define isMax where "isMax = (col0 = White)"
  define am where "am = fst (getAllPossibleMoves e col0)"
  define sh where "sh = shuffleArray js am"
  define init where "init = (if isMax then NegInf else PosInf)"
  define rs where "rs = rootScore n ev e depth isMax"
  have set_sh: "set sh = set am"
    using shuffleArray_mset [of js am] unfolding sh_def by (rule mset_eq_setD)
  have r': "(case bestMoveLoop n ev e depth isMax None init sh of
               Inl x \<Rightarrow> Inl x
             | Inr (bestMove, bestScore, e2) \<Rightarrow>
                 Inr (case bestMove of
                        Some m \<Rightarrow> Some m
                      | None \<Rightarrow> (case sh of [] \<Rightarrow> None | m0 # rest \<Rightarrow> Some m0),
                      bestScore, e2)) = Inr (mv, bs, e')"
    using r unfolding getBestMoveMinMax_def Let_def isMax_def am_def sh_def init_def
    by (simp add: getAllPossibleMoves_restores)
  then obtain bm where
    loop: "bestMoveLoop n ev e depth isMax None init sh = Inr (bm, bs, e')"
    and mv: "mv = (case bm of Some m \<Rightarrow> Some m
                  | None \<Rightarrow> (case sh of [] \<Rightarrow> None | m0 # rest \<Rightarrow> Some m0))"
    by (cases "bestMoveLoop n ev e depth isMax None init sh") auto
  from bestMoveLoop_char [OF loop] have ch:
    "e' = e"
    "bs = fold (better isMax) (List.map_filter rs sh) init"
    "\<forall>m \<in> set sh. sys_makeMove e m \<noteq> None \<longrightarrow> rs m \<noteq> None"
    "(bm = None \<and> bs = init) \<or> (\<exists>m \<in> set sh. bm = Some m \<and> rs m = Some bs)"
    unfolding rs_def by blast+
  have att: "m \<in> set am \<and> rs m = Some bs" if m: "mv = Some m" for m
  proof (cases bm)
    case (Some m')
    with ch(4) mv m set_sh show ?thesis by auto
  next
    case None
    with mv m obtain rest where sh: "sh = m # rest" by (auto split: list.splits)
    then have min: "m \<in> set am" using set_sh by auto
    then have "board e (fst m) \<noteq> None"
      unfolding am_def by (rule getAllPossibleMoves_origin)
    then have "sys_makeMove e m \<noteq> None" by (rule sys_makeMove_Some)
    with ch(3) sh obtain v where v: "rs m = Some v" by auto
    then have vin: "v \<in> set (List.map_filter rs sh)"
      using sh by (auto simp: set_map_filter)
    from None ch(4) have bi: "bs = init" by auto
    from ch(2) bi have fi: "fold (better isMax) (List.map_filter rs sh) init = init" by simp
    from fold_better_bound [OF vin, of isMax init]
    have "if isMax then v \<le> init else init \<le> v" unfolding fi .
    then have "v = init"
      by (auto simp: init_def dest: NegInf_least PosInf_greatest split: if_splits)
    with v bi min show ?thesis by simp
  qed
  from ch(1,2) att show ?thesis
    unfolding rs_def sh_def am_def init_def isMax_def by blast
qed

lemma minimax_total:
  "0 \<le> depth \<Longrightarrow> nat depth < n \<Longrightarrow> \<exists>v. minimax n ev e depth isMax alpha beta = Inr (v, e)"
  "1 \<le> depth \<Longrightarrow> nat depth \<le> n
     \<Longrightarrow> \<exists>v. minimaxLoop n ev e depth isMax best alpha beta ms = Inr (v, e)"
proof (induction n ev e depth isMax alpha beta and n ev e depth isMax best alpha beta ms
       rule: minimax_minimaxLoop.induct)
  case (1 ev e depth isMaximizing alpha beta)
  then show ?case by simp
next
  case (2 n ev e depth isMaximizing alpha beta)
  show ?case
  proof (cases "depth = 0 \<or> gameOver e")
    case True
    then show ?thesis by auto
  next
    case False
    with "2.prems" have d: "1 \<le> depth" "nat depth \<le> n" by auto
    from "2.IH" [OF False refl refl refl d] False show ?thesis
      by (simp add: Let_def getAllPossibleMoves_restores)
  qed
next
  case (3 n ev e depth isMaximizing best alpha beta)
  show ?case by simp
next
  case (4 n ev e depth isMaximizing best alpha beta m ms)
  show ?case
  proof (cases "sys_makeMove e m")
    case None
    with "4.IH"(1) [OF None "4.prems"] show ?thesis by simp
  next
    case (Some x)
    obtain e1 orig where x: "x = (e1, orig)" by (cases x)
    from "4.prems" have d: "0 \<le> depth - 1" "nat (depth - 1) < n" by auto
    from "4.IH"(2) [OF Some x [symmetric] d] obtain evaluation where
      mm: "minimax n ev e1 (depth - 1) (\<not> isMaximizing) alpha beta = Inr (evaluation, e1)"
      by blast
    from Some x have un: "sys_undoMove e1 orig m = Inr e" by (simp add: sys_make_undo)
    show ?thesis
    proof (cases isMaximizing)
      case True
      show ?thesis
      proof (cases "beta \<le> max alpha evaluation")
        case c: True
        with Some x mm un True show ?thesis by (simp add: Let_def)
      next
        case c: False
        from "4.IH"(3) [OF Some x [symmetric] mm refl un True refl refl c "4.prems"]
        obtain v where "minimaxLoop n ev e depth isMaximizing (max best evaluation)
                          (max alpha evaluation) beta ms = Inr (v, e)" by blast
        with Some x mm un True c show ?thesis by (simp add: Let_def)
      qed
    next
      case False
      show ?thesis
      proof (cases "min beta evaluation \<le> alpha")
        case c: True
        with Some x mm un False show ?thesis by (simp add: Let_def)
      next
        case c: False
        from "4.IH"(4) [OF Some x [symmetric] mm refl un False refl refl c "4.prems"]
        obtain v where "minimaxLoop n ev e depth isMaximizing (min best evaluation)
                          alpha (min beta evaluation) ms = Inr (v, e)" by blast
        with Some x mm un False c show ?thesis by (simp add: Let_def)
      qed
    qed
  qed
qed

lemma bestMoveLoop_total:
  assumes "1 \<le> depth" and "nat depth \<le> n"
  shows "\<exists>bm' bs'. bestMoveLoop n ev e depth isMax bm bs ms = Inr (bm', bs', e)"
proof (induction ms arbitrary: bm bs)
  case Nil
  show ?case by simp
next
  case (Cons m ms)
  show ?case
  proof (cases "sys_makeMove e m")
    case None
    with Cons.IH show ?thesis by simp
  next
    case (Some x)
    obtain e1 orig where x: "x = (e1, orig)" by (cases x)
    from assms have d: "0 \<le> depth - 1" "nat (depth - 1) < n" by auto
    from minimax_total(1) [OF d] obtain score where
      mm: "minimax n ev e1 (depth - 1) (\<not> isMax) NegInf PosInf = Inr (score, e1)"
      by blast
    from Some x mm Cons.IH show ?thesis
      by (simp add: bestMoveLoop_code(2) del: bestMoveLoop.simps)
  qed
qed

lemma getBestMoveMinMax_total:
  assumes "1 \<le> depth" and "nat depth \<le> n"
  shows "\<exists>mv bs. getBestMoveMinMax n ev js e col0 depth = Inr (mv, bs, e)"
proof -
  from bestMoveLoop_total [OF assms] obtain bm' bs' where
    "bestMoveLoop n ev e depth (col0 = White) None (if col0 = White then NegInf else PosInf)
       (shuffleArray js (fst (getAllPossibleMoves e col0))) = Inr (bm', bs', e)"
    by blast
  then show ?thesis
    by (simp add: getBestMoveMinMax_def Let_def getAllPossibleMoves_restores)
qed

section \<open>ChessEngineSystem: the best score does not depend on the shuffle\<close>

text \<open>
  C8. Two calls of \<^verbatim>\<open>getBestMoveMinMax\<close> on the same engine, for the same colour and
  the same depth of at least 1, that differ in the draws of the shuffle only, both return,
  with the same \<^verbatim>\<open>bestScore\<close>. Each leaves the engine as it was, and the move each
  returns is one whose own score is that best score: the moves can differ only among
  those that attain it. In the example the two shuffles return different king moves, both
  scored -500.
\<close>

theorem bestScore_deterministic:
  assumes "1 \<le> depth" and "nat depth \<le> n"
  shows "\<exists>mv1 mv2 bs.
           getBestMoveMinMax n ev js1 e col0 depth = Inr (mv1, bs, e)
         \<and> getBestMoveMinMax n ev js2 e col0 depth = Inr (mv2, bs, e)
         \<and> (\<forall>m. mv1 = Some m \<longrightarrow> rootScore n ev e depth (col0 = White) m = Some bs)
         \<and> (\<forall>m. mv2 = Some m \<longrightarrow> rootScore n ev e depth (col0 = White) m = Some bs)"
proof -
  from getBestMoveMinMax_total [OF assms] obtain mv1 bs1 where
    r1: "getBestMoveMinMax n ev js1 e col0 depth = Inr (mv1, bs1, e)" by blast
  from getBestMoveMinMax_total [OF assms] obtain mv2 bs2 where
    r2: "getBestMoveMinMax n ev js2 e col0 depth = Inr (mv2, bs2, e)" by blast
  let ?am = "fst (getAllPossibleMoves e col0)"
  have "set (shuffleArray js1 ?am) = set (shuffleArray js2 ?am)"
    using shuffleArray_mset [of js1 ?am] shuffleArray_mset [of js2 ?am]
    by (metis mset_eq_setD)
  then have "set (List.map_filter (rootScore n ev e depth (col0 = White)) (shuffleArray js1 ?am))
           = set (List.map_filter (rootScore n ev e depth (col0 = White)) (shuffleArray js2 ?am))"
    by (simp add: set_map_filter)
  from fold_best_perm [OF this]
    getBestMoveMinMax_char [OF r1] getBestMoveMinMax_char [OF r2]
  have "bs1 = bs2"
    and "\<forall>m. mv1 = Some m \<longrightarrow> rootScore n ev e depth (col0 = White) m = Some bs1"
    and "\<forall>m. mv2 = Some m \<longrightarrow> rootScore n ev e depth (col0 = White) m = Some bs2"
    by simp_all
  with r1 r2 show ?thesis by blast
qed

theorem bestScore_deterministic_witness:
  "getBestMoveMinMax 2 materialEval [] epState White 2
     = Inr (Some ((3, 0), (2, 0)), Num (- 500), epState)
   \<and> getBestMoveMinMax 2 materialEval [0, 0, 0, 0, 0, 0, 0, 0] epState White 2
     = Inr (Some ((3, 0), (2, 1)), Num (- 500), epState)"
proof -
  have d: "(1::int) \<le> 2" "nat 2 \<le> (2::nat)" by simp_all
  from bestScore_deterministic [OF d, of materialEval "[]" epState White "[0, 0, 0, 0, 0, 0, 0, 0]"]
  obtain mv1 mv2 bs where
    r1: "getBestMoveMinMax 2 materialEval [] epState White 2 = Inr (mv1, bs, epState)" and
    r2: "getBestMoveMinMax 2 materialEval [0, 0, 0, 0, 0, 0, 0, 0] epState White 2
           = Inr (mv2, bs, epState)"
    by blast
  have "case getBestMoveMinMax 2 materialEval [] epState White 2 of
          Inl x \<Rightarrow> False
        | Inr (mv, bs', e') \<Rightarrow> mv = Some ((3, 0), (2, 0)) \<and> bs' = Num (- 500)"
    by code_simp
  with r1 have v1: "mv1 = Some ((3, 0), (2, 0))" "bs = Num (- 500)" by simp_all
  have "case getBestMoveMinMax 2 materialEval [0, 0, 0, 0, 0, 0, 0, 0] epState White 2 of
          Inl x \<Rightarrow> False
        | Inr (mv, bs', e') \<Rightarrow> mv = Some ((3, 0), (2, 1))"
    by code_simp
  with r2 have v2: "mv2 = Some ((3, 0), (2, 1))" by simp
  from r1 r2 v1 v2 show ?thesis by simp
qed

section \<open>Round trips of apply and undo\<close>

text \<open>
  C2, as the code has it. After any sequence of apply/undo pairs, nested or in a row, in
  which every move was applied by \<^verbatim>\<open>movePiece\<close> and every \<^verbatim>\<open>undoMove\<close> returned
  \<^verbatim>\<open>true\<close> (undo is enabled and the move's entry is still in the bounded history), the
  board is the one before the sequence: each undo puts back the board of its matching
  move, captures, castling and en passant included. In the search, the temporary
  \<^verbatim>\<open>makeMove\<close> followed by its \<^verbatim>\<open>undoMove\<close> gives back the engine it started from, and
  so does every visit of a node by \<^verbatim>\<open>minimax\<close>.
\<close>

theorem apply_undo_round_trip:
  "(runPairs sc s = Some s' \<longrightarrow> board s' = board s)
   \<and> (sys_makeMove e mv = Some (e1, orig) \<longrightarrow> sys_undoMove e1 orig mv = Inr e)
   \<and> (minimax n ev e depth isMax alpha beta = Inr (v, e') \<longrightarrow> e' = e)"
  using runPairs_invariant [of sc s s'] sys_make_undo [of e mv e1 orig]
    minimax_restores(1) [of n ev e depth isMax alpha beta v e'] by blast

theorem apply_undo_round_trip_witness:
  "(\<exists>s'. runPairs epScript epStart = Some s' \<and> board s' = board epStart)
   \<and> (\<exists>e1 orig. sys_makeMove epState ((3, 1), (2, 1)) = Some (e1, orig)
         \<and> sys_undoMove e1 orig ((3, 1), (2, 1)) = Inr epState)
   \<and> (\<exists>v. minimax 2 materialEval epState 1 True NegInf PosInf = Inr (v, epState))"
proof -
  have "case runPairs epScript epStart of None \<Rightarrow> False | Some s' \<Rightarrow> True"
    by code_simp
  then obtain s' where r: "runPairs epScript epStart = Some s'"
    by (cases "runPairs epScript epStart") auto
  have "case sys_makeMove epState ((3, 1), (2, 1)) of None \<Rightarrow> False | Some x \<Rightarrow> True"
    by code_simp
  then obtain e1 orig where m: "sys_makeMove epState ((3, 1), (2, 1)) = Some (e1, orig)"
    by (cases "sys_makeMove epState ((3, 1), (2, 1))") auto
  have "case minimax 2 materialEval epState 1 True NegInf PosInf of
          Inl x \<Rightarrow> False | Inr r \<Rightarrow> True"
    by code_simp
  then obtain v e' where
    mm: "minimax 2 materialEval epState 1 True NegInf PosInf = Inr (v, e')"
    by (cases "minimax 2 materialEval epState 1 True NegInf PosInf") auto
  from r m mm
    apply_undo_round_trip [of epScript epStart s' epState "((3, 1), (2, 1))" e1 orig
      2 materialEval 1 True NegInf PosInf v e']
  show ?thesis by blast
qed

text \<open>
  The claim as stated covers every sequence from every state. \<^verbatim>\<open>undoMove\<close> returns
  \<^verbatim>\<open>false\<close> and changes nothing when \<^verbatim>\<open>config.allowUndo\<close> is off or the history is
  empty, and \<^verbatim>\<open>movePiece\<close> drops the oldest entry once the history is longer than
  \<^verbatim>\<open>config.maxMoveHistory\<close>. With undo disabled, one pair leaves the black pawn on c5;
  with a history of one entry, two nested pairs do: the second undo finds no entry.
\<close>

theorem round_trip_needs_history:
  "fst (runCalls [Apply 1 2 3 2, Undo] noUndoStart) = [Moved Valid, Undone False]
   \<and> board noUndoStart (1, 2) = Some (mkPiece Pawn Black False)
   \<and> board (snd (runCalls [Apply 1 2 3 2, Undo] noUndoStart)) (1, 2) = None
   \<and> fst (runCalls [Apply 1 2 3 2, Apply 3 1 2 2, Undo, Undo] shortHistoryStart)
        = [Moved Valid, Moved Valid, Undone True, Undone False]
   \<and> board shortHistoryStart (1, 2) = Some (mkPiece Pawn Black False)
   \<and> board (snd (runCalls [Apply 1 2 3 2, Apply 3 1 2 2, Undo, Undo] shortHistoryStart)) (1, 2)
        = None"
  by code_simp

section \<open>Check detection and evaluation without a king\<close>

lemma kingAbsent_find:
  "kingAbsent b col \<Longrightarrow>
     find (\<lambda>sq. case b sq of None \<Rightarrow> False
               | Some p \<Rightarrow> ptype p = King \<and> pcolor p = col) allSquares = None"
  by (auto simp: kingAbsent_def find_None_iff list_all_iff split: option.splits)

text \<open>The king positions that the first loop of \<^verbatim>\<open>evaluate\<close> records.\<close>

lemma evaluateSquare_whiteKingPos:
  "whiteKingPos (evaluateSquare b col0 acc sq) =
     (case b sq of
        None \<Rightarrow> whiteKingPos acc
      | Some p \<Rightarrow> if ptype p = King \<and> pcolor p = White then Some sq else whiteKingPos acc)"
  by (simp add: evaluateSquare_def Let_def split: option.splits)

lemma evaluateSquare_blackKingPos:
  "blackKingPos (evaluateSquare b col0 acc sq) =
     (case b sq of
        None \<Rightarrow> blackKingPos acc
      | Some p \<Rightarrow> if ptype p = King \<and> pcolor p = Black then Some sq else blackKingPos acc)"
proof (cases "b sq")
  case None
  then show ?thesis by (simp add: evaluateSquare_def)
next
  case (Some p)
  then show ?thesis by (cases "pcolor p") (simp_all add: evaluateSquare_def Let_def)
qed

lemma foldl_whiteKingPos:
  "list_all (\<lambda>sq. case b sq of None \<Rightarrow> True
                  | Some p \<Rightarrow> \<not> (ptype p = King \<and> pcolor p = White)) sqs
     \<Longrightarrow> whiteKingPos (foldl (evaluateSquare b col0) acc sqs) = whiteKingPos acc"
  by (induction sqs arbitrary: acc) (auto simp: evaluateSquare_whiteKingPos split: option.splits)

lemma foldl_blackKingPos:
  "list_all (\<lambda>sq. case b sq of None \<Rightarrow> True
                  | Some p \<Rightarrow> \<not> (ptype p = King \<and> pcolor p = Black)) sqs
     \<Longrightarrow> blackKingPos (foldl (evaluateSquare b col0) acc sqs) = blackKingPos acc"
  by (induction sqs arbitrary: acc) (auto simp: evaluateSquare_blackKingPos split: option.splits)

text \<open>
  With either king absent the test \<^verbatim>\<open>if (whiteKingPos && blackKingPos)\<close> fails, and
  \<^verbatim>\<open>evaluate\<close> returns the sum of its other terms.
\<close>

lemma kingAbsent_evaluate:
  assumes "kingAbsent b col"
  shows "evaluate b col0
           = (materialTerm b col0 + mobilityTerm b col0 + evaluatePawnStructure_sf b col0, b)"
proof -
  define acc where "acc = foldl (evaluateSquare b col0)
     \<lparr>accScore = 0, totalMaterial = 0, whiteKingPos = None, blackKingPos = None\<rparr> allSquares"
  have g: "\<And>c. generateAllLegalMoves b c = (fst (generateAllLegalMoves b c), b)"
    using generateAllLegalMoves_restores by (metis prod.collapse)
  have k: "whiteKingPos acc = None \<or> blackKingPos acc = None"
  proof (cases col)
    case White
    with assms have "list_all (\<lambda>sq. case b sq of None \<Rightarrow> True
        | Some p \<Rightarrow> \<not> (ptype p = King \<and> pcolor p = White)) allSquares"
      by (simp add: kingAbsent_def)
    from foldl_whiteKingPos [OF this] show ?thesis by (simp add: acc_def)
  next
    case Black
    with assms have "list_all (\<lambda>sq. case b sq of None \<Rightarrow> True
        | Some p \<Rightarrow> \<not> (ptype p = King \<and> pcolor p = Black)) allSquares"
      by (simp add: kingAbsent_def)
    from foldl_blackKingPos [OF this] show ?thesis by (simp add: acc_def)
  qed
  obtain mine where m: "generateAllLegalMoves b col0 = (mine, b)"
    by (metis g)
  obtain theirs where t: "generateAllLegalMoves b (getOpponent col0) = (theirs, b)"
    by (metis g)
  from k show ?thesis
    by (auto simp: evaluate_def Let_def m t materialTerm_def mobilityTerm_def acc_def
          split: option.splits)
qed

text \<open>
  C9, as the code has it. When no square of the board holds the king of a colour, the
  operations that look for it return a normal result and do not raise.
  \<^verbatim>\<open>ChessEngineCore.isKingInCheck\<close> and \<^verbatim>\<open>StockfishLikeEngine.isKingInCheck\<close> take the
  branch \<^verbatim>\<open>if (!kingPos) return false\<close>, and \<^verbatim>\<open>ChessEngine.isKingInCheck\<close> looks for an
  attack on undefined coordinates: all three report "not in check".
  \<^verbatim>\<open>StockfishLikeEngine.evaluate\<close>, for either side, skips king safety and returns the
  sum of material and piece-square values, mobility and pawn structure.
\<close>

theorem missing_king_normal_result:
  assumes "kingAbsent b col"
  shows "\<not> isKingInCheck b col \<and> \<not> isKingInCheck_sf b col \<and> \<not> isKingInCheck_ce b col
         \<and> fst (evaluate b col0)
             = materialTerm b col0 + mobilityTerm b col0 + evaluatePawnStructure_sf b col0"
  using kingAbsent_find [OF assms] kingAbsent_evaluate [OF assms, of col0]
  by (simp add: isKingInCheck_def isKingInCheck_sf_def isKingInCheck_ce_def findKing_def)

theorem missing_king_normal_result_witness:
  "kingAbsent kinglessBoard White
   \<and> \<not> isKingInCheck kinglessBoard White \<and> \<not> isKingInCheck_sf kinglessBoard White
   \<and> \<not> isKingInCheck_ce kinglessBoard White
   \<and> fst (evaluate kinglessBoard Black)
       = materialTerm kinglessBoard Black + mobilityTerm kinglessBoard Black
         + evaluatePawnStructure_sf kinglessBoard Black"
proof -
  have h: "kingAbsent kinglessBoard White" by code_simp
  from h missing_king_normal_result [OF h, of Black] show ?thesis by simp
qed

text \<open>
  The claim as stated asks for a loud failure. On the board without a white king (black
  king e8, black rook a8, white pawn a2) the three check tests return \<^verbatim>\<open>false\<close>, and
  the evaluation returns a score for White and for Black.
\<close>

theorem missing_king_silent:
  "kingAbsent kinglessBoard White
   \<and> isKingInCheck kinglessBoard White = False
   \<and> isKingInCheck_sf kinglessBoard White = False
   \<and> isKingInCheck_ce kinglessBoard White = False
   \<and> fst (evaluate kinglessBoard White) = - 20535
   \<and> fst (evaluate kinglessBoard Black) = 20515"
  by code_simp

end
